theory Spec2Isabelle
  imports Main
begin

section \<open>Data model\<close>

text \<open>
  The watchdog daemon (Tier 0 mechanical process monitoring) of overstory, embedded
  shallowly. The asynchronous functions of the source run sequentially (every call is
  awaited), so a function of the source becomes a function on an explicit system state
  that returns either the exception that escaped it (\<open>Inl\<close>) or its value
  (\<open>Inr\<close>).
\<close>

text \<open>
  The lifecycle state of a session: the four states that matter to the loop, and any other
  value that the rest of the system may record.
\<close>

datatype AgentState = Booting | Working | Zombie | Completed | OtherState string

text \<open>The action recommended by a health check.\<close>

datatype HealthAction = ActNone | Escalate | Investigate | Terminate

text \<open>The answers of the Tier 1 triage: \<open>"retry" | "terminate" | "extend"\<close>.\<close>

datatype TriageVerdict = Retry | TriageTerminate | Extend

text \<open>A thrown JavaScript value; only its being thrown matters here.\<close>

type_synonym exn = string

text \<open>
  The fields of a session record as \<open>makeSession\<close> of the test suite lists them. The
  two escalation fields differ between a record as parsed from the registry file (where
  they may be absent) and a record in memory after \<open>loadSessions\<close>; the other fields
  are shared. A timestamp the loop handles is an ISO string with millisecond precision
  (\<open>new Date().toISOString()\<close>, read back with \<open>new Date(...).getTime()\<close>): the
  fields \<open>lastActivity\<close> and \<open>stalledSince\<close> are represented by the epoch
  milliseconds the string encodes, and \<open>None\<close> is \<open>null\<close>.
\<close>

record SessionBase =
  id' :: string
  agentName :: string
  capability :: string
  worktreePath :: string
  branchName :: string
  beadId :: string
  tmuxSession :: string
  state :: AgentState
  pid :: int
  parentAgent :: "string option"
  depth :: int
  startedAt :: string
  lastActivity :: int

record AgentSession = SessionBase +
  escalationLevel :: int
  stalledSince :: "int option"

text \<open>
  A record of the registry file: an absent key is \<open>None\<close> (JavaScript's
  \<open>undefined\<close>), a present \<open>stalledSince: null\<close> is \<open>Some None\<close>.
\<close>

record RawSession = SessionBase +
  raw_escalationLevel :: "int option"
  raw_stalledSince :: "int option option"

text \<open>What the registry file \<open>{root}/.overstory/sessions.json\<close> can hold.\<close>

datatype RegistryFile =
    NoFile
  | NotJson
  | JsonNotArray
  | JsonArray "RawSession list"

text \<open>
  The health check handed to the observer. Its declaration (\<open>types.ts\<close>) is not part of
  the sources: it is a verdict carrying a classification and one of the four actions, and
  the loop reads the field \<open>action\<close> only.
\<close>

record HealthCheck =
  classification :: AgentState
  action :: HealthAction

record Thresholds =
  staleMs :: int
  zombieMs :: int

record TriageRequest =
  req_agentName :: string
  req_root :: string
  req_lastActivity :: int

record NudgeResult =
  delivered :: bool
  reason :: "string option"

record ActionResult =
  terminated :: bool
  stateChanged :: bool

section \<open>Collaborators and system state\<close>

text \<open>
  The collaborators are arbitrary: each one is a function of an abstract world \<open>'w\<close>
  that returns its answer (or the exception it throws) and the next world. The options
  \<open>_tmux\<close>, \<open>_triage\<close> and \<open>_nudge\<close> default to the real implementations, which are
  such functions too, so the defaults are not modelled apart.
\<close>

record 'w DaemonOptions =
  root :: string
  staleThresholdMs :: int
  zombieThresholdMs :: int
  nudgeIntervalMs :: "int option"
  tier1Enabled :: "bool option"
  onHealthCheck :: "(HealthCheck \<Rightarrow> 'w \<Rightarrow> (exn + unit) \<times> 'w) option"
  tmux_isSessionAlive :: "string \<Rightarrow> 'w \<Rightarrow> (exn + bool) \<times> 'w"
  tmux_killSession :: "string \<Rightarrow> 'w \<Rightarrow> (exn + unit) \<times> 'w"
  triage :: "TriageRequest \<Rightarrow> 'w \<Rightarrow> (exn + TriageVerdict) \<times> 'w"
  nudge :: "string \<Rightarrow> string \<Rightarrow> string \<Rightarrow> bool \<Rightarrow> 'w \<Rightarrow> (exn + NudgeResult) \<times> 'w"

text \<open>
  What the module imports besides the collaborators: the clock (\<open>Date.now()\<close> and
  \<open>new Date()\<close>, in epoch milliseconds) and the two functions of \<open>health.ts\<close>, which
  is not part of the sources. They are parameters of the model: \<open>evaluateHealth\<close> may
  read the world (the current time), \<open>transitionState\<close> is pure.
\<close>

record 'w Platform =
  clock :: "'w \<Rightarrow> int \<times> 'w"
  evaluateHealth :: "AgentSession \<Rightarrow> bool \<Rightarrow> Thresholds \<Rightarrow> 'w \<Rightarrow> HealthCheck \<times> 'w"
  transitionState :: "AgentState \<Rightarrow> HealthCheck \<Rightarrow> AgentState"

text \<open>
  The calls the loop makes, logged with the \<open>id\<close> of the session being processed, and
  the write of the registry file.
\<close>

datatype call =
    IsSessionAlive string
  | KillSession string
  | Nudge string string string bool
  | Triage TriageRequest
  | OnHealthCheck HealthCheck

datatype event =
    Call string call
  | SaveSessions "AgentSession list"

record 'w sys =
  world :: 'w
  trace :: "event list"
  sessionsFile :: RegistryFile

definition emit :: "event \<Rightarrow> 'w sys \<Rightarrow> 'w sys" where
  "emit e st = st\<lparr>trace := trace st @ [e]\<rparr>"

definition perform :: "string \<Rightarrow> call \<Rightarrow> ('w \<Rightarrow> 'r \<times> 'w) \<Rightarrow> 'w sys \<Rightarrow> 'r \<times> 'w sys" where
  "perform sid c f st =
     (case f (world st) of (r, w') \<Rightarrow> (r, emit (Call sid c) (st\<lparr>world := w'\<rparr>)))"

definition now_ms :: "'w Platform \<Rightarrow> 'w sys \<Rightarrow> int \<times> 'w sys" where
  "now_ms pf st = (case clock pf (world st) of (t, w') \<Rightarrow> (t, st\<lparr>world := w'\<rparr>))"

text \<open>
  \<open>if (tmuxAlive) { try { await tmux.killSession(session.tmuxSession); } catch { } }\<close>:
  the kill is attempted when the probe had answered alive, and what it throws is dropped.
\<close>

definition kill_if_alive :: "'w DaemonOptions \<Rightarrow> AgentSession \<Rightarrow> bool \<Rightarrow> 'w sys \<Rightarrow> 'w sys" where
  "kill_if_alive opts session tmuxAlive st =
     (if tmuxAlive
      then snd (perform (id' session) (KillSession (tmuxSession session))
                  (tmux_killSession opts (tmuxSession session)) st)
      else st)"

text \<open>\<open>try { await nudge(root, agentName, message, true); } catch { }\<close>\<close>

definition nudge_swallowed :: "'w DaemonOptions \<Rightarrow> AgentSession \<Rightarrow> string \<Rightarrow> 'w sys \<Rightarrow> 'w sys" where
  "nudge_swallowed opts session message st =
     snd (perform (id' session) (Nudge (root opts) (agentName session) message True)
            (nudge opts (root opts) (agentName session) message True) st)"

definition stalled_message :: "string \<Rightarrow> string" where
  "stalled_message name =
     ''[WATCHDOG] Agent '' @ [CHR 0x22] @ name @ [CHR 0x22] @
     '' appears stalled. Please check your current task and report status.''"

definition recovery_message :: string where
  "recovery_message =
     ''[WATCHDOG] Triage suggests recovery is possible. '' @
     ''Please retry your current operation or check for errors.''"

section \<open>The escalation action\<close>

definition MAX_ESCALATION_LEVEL :: int where
  "MAX_ESCALATION_LEVEL = 3"

text \<open>
  \<open>executeEscalationAction\<close>: the \<open>switch\<close> on \<open>session.escalationLevel\<close> with the cases
  0, 1, 2 and \<open>default\<close>. The call of \<open>triage\<close> is not inside a \<open>try\<close>.
\<close>

definition executeEscalationAction ::
  "'w DaemonOptions \<Rightarrow> AgentSession \<Rightarrow> bool \<Rightarrow> bool \<Rightarrow> 'w sys \<Rightarrow> (exn + ActionResult) \<times> 'w sys" where
  "executeEscalationAction opts session tmuxAlive tier1 st =
     (if escalationLevel session = 0 then
        (Inr \<lparr>terminated = False, stateChanged = False\<rparr>, st)
      else if escalationLevel session = 1 then
        (Inr \<lparr>terminated = False, stateChanged = False\<rparr>,
         nudge_swallowed opts session (stalled_message (agentName session)) st)
      else if escalationLevel session = 2 then
        (if \<not> tier1 then (Inr \<lparr>terminated = False, stateChanged = False\<rparr>, st)
         else
           (case perform (id' session)
                   (Triage \<lparr>req_agentName = agentName session, req_root = root opts,
                            req_lastActivity = lastActivity session\<rparr>)
                   (triage opts \<lparr>req_agentName = agentName session, req_root = root opts,
                                 req_lastActivity = lastActivity session\<rparr>) st of
              (Inl e, st1) \<Rightarrow> (Inl e, st1)
            | (Inr verdict, st1) \<Rightarrow>
                (if verdict = TriageTerminate then
                   (Inr \<lparr>terminated = True, stateChanged = True\<rparr>,
                    kill_if_alive opts session tmuxAlive st1)
                 else if verdict = Retry then
                   (Inr \<lparr>terminated = False, stateChanged = False\<rparr>,
                    nudge_swallowed opts session recovery_message st1)
                 else (Inr \<lparr>terminated = False, stateChanged = False\<rparr>, st1))))
      else
        (Inr \<lparr>terminated = True, stateChanged = True\<rparr>,
         kill_if_alive opts session tmuxAlive st))"

section \<open>The raise step\<close>

text \<open>
  JavaScript numbers as far as \<open>Math.min(Math.floor(stalledMs / nudgeIntervalMs), 3)\<close>
  needs them. Both operands are integers (milliseconds) of magnitude below \<open>2^53\<close>, where
  the floor of the floating-point quotient is the floor of the exact quotient; a zero
  divisor gives an infinity or NaN.
\<close>

datatype jsnum = Finite int | PlusInfinity | MinusInfinity | NotANumber

definition js_floor_div :: "int \<Rightarrow> int \<Rightarrow> jsnum" where
  "js_floor_div a b =
     (if b \<noteq> 0 then Finite (a div b)
      else if 0 < a then PlusInfinity
      else if a < 0 then MinusInfinity
      else NotANumber)"

fun js_min :: "jsnum \<Rightarrow> int \<Rightarrow> jsnum" where
  "js_min (Finite q) k = Finite (min q k)"
| "js_min PlusInfinity k = Finite k"
| "js_min MinusInfinity k = MinusInfinity"
| "js_min NotANumber k = NotANumber"

fun js_greater :: "jsnum \<Rightarrow> int \<Rightarrow> bool" where
  "js_greater (Finite q) l = (l < q)"
| "js_greater PlusInfinity l = True"
| "js_greater MinusInfinity l = False"
| "js_greater NotANumber l = False"

text \<open>
  The number that an assignment stores in \<open>escalationLevel\<close>. The assignment happens
  only when the comparison holds, and then the minimum with 3 is finite.
\<close>

fun js_int :: "jsnum \<Rightarrow> int \<Rightarrow> int" where
  "js_int (Finite q) d = q"
| "js_int _ d = d"

definition expectedLevel :: "int \<Rightarrow> int \<Rightarrow> jsnum" where
  "expectedLevel stalledMs interval = js_min (js_floor_div stalledMs interval) MAX_ESCALATION_LEVEL"

text \<open>
  \<open>if (session.stalledSince === null) { session.stalledSince = new Date().toISOString();
  session.escalationLevel = 0; updated = true; }\<close>, given the reading of the clock.
\<close>

definition start_stall :: "int \<Rightarrow> AgentSession \<Rightarrow> AgentSession" where
  "start_stall t session = session\<lparr>stalledSince := Some t, escalationLevel := 0\<rparr>"

text \<open>
  \<open>const stalledMs = Date.now() - new Date(session.stalledSince).getTime(); ...
  if (expectedLevel > session.escalationLevel) { session.escalationLevel = expectedLevel; }\<close>,
  given the reading \<open>now\<close> of the clock. It runs on a session whose \<open>stalledSince\<close> is
  not null; on null, \<open>new Date(null).getTime()\<close> is 0.
\<close>

definition stalledMs_at :: "int \<Rightarrow> AgentSession \<Rightarrow> int" where
  "stalledMs_at now session = now - (case stalledSince session of None \<Rightarrow> 0 | Some t \<Rightarrow> t)"

definition raise_due :: "int \<Rightarrow> int \<Rightarrow> AgentSession \<Rightarrow> bool" where
  "raise_due interval now session =
     js_greater (expectedLevel (stalledMs_at now session) interval) (escalationLevel session)"

definition raise_level :: "int \<Rightarrow> int \<Rightarrow> AgentSession \<Rightarrow> AgentSession" where
  "raise_level interval now session =
     (if raise_due interval now session
      then session\<lparr>escalationLevel :=
             js_int (expectedLevel (stalledMs_at now session) interval) (escalationLevel session)\<rparr>
      else session)"

text \<open>
  The first half of the \<open>escalate\<close> branch: start the stall episode if there is none, then
  raise the level. It returns the session, the flag \<open>updated\<close> and the state.
\<close>

definition raise_step ::
  "'w Platform \<Rightarrow> int \<Rightarrow> AgentSession \<Rightarrow> bool \<Rightarrow> 'w sys \<Rightarrow> AgentSession \<times> bool \<times> 'w sys" where
  "raise_step pf interval session updated st =
     (case (if stalledSince session = None
            then (case now_ms pf st of (t, st1) \<Rightarrow> (start_stall t session, True, st1))
            else (session, updated, st)) of
        (s1, u1, st1) \<Rightarrow>
          (case now_ms pf st1 of
             (now, st2) \<Rightarrow>
               (raise_level interval now s1,
                (if raise_due interval now s1 then True else u1),
                st2)))"

section \<open>One tick\<close>

definition clear_escalation :: "AgentSession \<Rightarrow> AgentSession" where
  "clear_escalation session = session\<lparr>escalationLevel := 0, stalledSince := None\<rparr>"

text \<open>The \<open>escalate\<close> branch of the loop body.\<close>

definition escalate_branch ::
  "'w DaemonOptions \<Rightarrow> 'w Platform \<Rightarrow> int \<Rightarrow> bool \<Rightarrow> bool \<Rightarrow> AgentSession \<Rightarrow> bool \<Rightarrow> 'w sys
     \<Rightarrow> (exn + unit) \<times> AgentSession \<times> bool \<times> 'w sys" where
  "escalate_branch opts pf interval tier1 tmuxAlive session updated st =
     (case raise_step pf interval session updated st of
        (s2, u2, st2) \<Rightarrow>
          (case executeEscalationAction opts s2 tmuxAlive tier1 st2 of
             (Inl e, st3) \<Rightarrow> (Inl e, s2, u2, st3)
           | (Inr actionResult, st3) \<Rightarrow>
               (if terminated actionResult
                then (Inr (), clear_escalation (s2\<lparr>state := Zombie\<rparr>), True, st3)
                else if stateChanged actionResult then (Inr (), s2, True, st3)
                else (Inr (), s2, u2, st3))))"

text \<open>The branching on \<open>check.action\<close> after the observer has been called.\<close>

definition handle_action ::
  "'w DaemonOptions \<Rightarrow> 'w Platform \<Rightarrow> int \<Rightarrow> bool \<Rightarrow> HealthCheck \<Rightarrow> bool \<Rightarrow> AgentSession \<Rightarrow> bool \<Rightarrow> 'w sys
     \<Rightarrow> (exn + unit) \<times> AgentSession \<times> bool \<times> 'w sys" where
  "handle_action opts pf interval tier1 check tmuxAlive session updated st =
     (if action check = Terminate then
        (Inr (), clear_escalation (session\<lparr>state := Zombie\<rparr>), True,
         kill_if_alive opts session tmuxAlive st)
      else if action check = Investigate then (Inr (), session, updated, st)
      else if action check = Escalate then
        escalate_branch opts pf interval tier1 tmuxAlive session updated st
      else if action check = ActNone \<and> stalledSince session \<noteq> None then
        (Inr (), session\<lparr>stalledSince := None, escalationLevel := 0\<rparr>, True, st)
      else (Inr (), session, updated, st))"

text \<open>
  The body of \<open>for (const session of sessions)\<close>, from the transition of the state
  on: the state moves to what \<open>transitionState\<close> says, the observer is called if there
  is one, and the action of the check is handled. What the observer throws is not caught.
\<close>

definition apply_check ::
  "'w DaemonOptions \<Rightarrow> 'w Platform \<Rightarrow> HealthCheck \<Rightarrow> bool \<Rightarrow> AgentSession \<Rightarrow> bool \<Rightarrow> 'w sys
     \<Rightarrow> (exn + unit) \<times> AgentSession \<times> bool \<times> 'w sys" where
  "apply_check opts pf check tmuxAlive session updated st =
     (let newState = transitionState pf (state session) check;
          s1 = (if newState \<noteq> state session then session\<lparr>state := newState\<rparr> else session);
          u1 = (if newState \<noteq> state session then True else updated)
      in (case (case onHealthCheck opts of
                  None \<Rightarrow> (Inr (), st)
                | Some callback \<Rightarrow>
                    perform (id' session) (OnHealthCheck check) (callback check) st) of
            (Inl e, st3) \<Rightarrow> (Inl e, s1, u1, st3)
          | (Inr _, st3) \<Rightarrow>
              handle_action opts pf
                (case nudgeIntervalMs opts of None \<Rightarrow> 60000 | Some i \<Rightarrow> i)
                (case tier1Enabled opts of None \<Rightarrow> False | Some b \<Rightarrow> b)
                check tmuxAlive s1 u1 st3))"

text \<open>
  The whole body: a \<open>completed\<close> session is skipped, the others are probed and
  evaluated. It returns the exception that escaped it, if any, the session as mutated so
  far, the flag \<open>updated\<close> and the state.
\<close>

definition loop_body ::
  "'w DaemonOptions \<Rightarrow> 'w Platform \<Rightarrow> AgentSession \<Rightarrow> bool \<Rightarrow> 'w sys
     \<Rightarrow> (exn + unit) \<times> AgentSession \<times> bool \<times> 'w sys" where
  "loop_body opts pf session updated st =
     (if state session = Completed then (Inr (), session, updated, st)
      else
        (case perform (id' session) (IsSessionAlive (tmuxSession session))
                (tmux_isSessionAlive opts (tmuxSession session)) st of
           (Inl e, st1) \<Rightarrow> (Inl e, session, updated, st1)
         | (Inr tmuxAlive, st1) \<Rightarrow>
             (case evaluateHealth pf session tmuxAlive
                     \<lparr>staleMs = staleThresholdMs opts, zombieMs = zombieThresholdMs opts\<rparr>
                     (world st1) of
                (check, w2) \<Rightarrow>
                  apply_check opts pf check tmuxAlive session updated (st1\<lparr>world := w2\<rparr>))))"

text \<open>The loop: an exception leaves it at once, the later sessions are not visited.\<close>

fun session_loop ::
  "'w DaemonOptions \<Rightarrow> 'w Platform \<Rightarrow> AgentSession list \<Rightarrow> bool \<Rightarrow> 'w sys
     \<Rightarrow> (exn + unit) \<times> AgentSession list \<times> bool \<times> 'w sys" where
  "session_loop opts pf [] updated st = (Inr (), [], updated, st)"
| "session_loop opts pf (session # rest) updated st =
     (case loop_body opts pf session updated st of
        (Inl e, s', u', st') \<Rightarrow> (Inl e, s' # rest, u', st')
      | (Inr _, s', u', st') \<Rightarrow>
          (case session_loop opts pf rest u' st' of
             (r, rest', u'', st'') \<Rightarrow> (r, s' # rest', u'', st'')))"

text \<open>
  \<open>loadSessions\<close>: a missing file and a JSON value that is not an array read as no
  sessions, text that is not JSON makes \<open>JSON.parse\<close> throw, and the records of an array
  get the escalation fields they lack.
\<close>

definition backfill :: "RawSession \<Rightarrow> AgentSession" where
  "backfill r =
     SessionBase.extend (SessionBase.truncate r)
       (AgentSession.fields
          (case raw_escalationLevel r of None \<Rightarrow> 0 | Some l \<Rightarrow> l)
          (case raw_stalledSince r of None \<Rightarrow> None | Some v \<Rightarrow> v))"

definition loadSessions :: "RegistryFile \<Rightarrow> exn + AgentSession list" where
  "loadSessions f =
     (case f of
        NoFile \<Rightarrow> Inr []
      | NotJson \<Rightarrow> Inl ''SyntaxError''
      | JsonNotArray \<Rightarrow> Inr []
      | JsonArray rs \<Rightarrow> Inr (map backfill rs))"

text \<open>
  \<open>saveSessions\<close>: \<open>JSON.stringify\<close> writes every field of every record. Failures
  of the file system itself, on reading or on writing, are not modelled.
\<close>

definition stringify :: "AgentSession \<Rightarrow> RawSession" where
  "stringify s =
     SessionBase.extend (SessionBase.truncate s)
       (RawSession.fields (Some (escalationLevel s)) (Some (stalledSince s)))"

definition saveSessions :: "AgentSession list \<Rightarrow> 'w sys \<Rightarrow> 'w sys" where
  "saveSessions sessions st =
     emit (SaveSessions sessions) (st\<lparr>sessionsFile := JsonArray (map stringify sessions)\<rparr>)"

text \<open>\<open>runDaemonTick\<close>\<close>

definition runDaemonTick :: "'w DaemonOptions \<Rightarrow> 'w Platform \<Rightarrow> 'w sys \<Rightarrow> (exn + unit) \<times> 'w sys" where
  "runDaemonTick opts pf st =
     (case loadSessions (sessionsFile st) of
        Inl e \<Rightarrow> (Inl e, st)
      | Inr sessions \<Rightarrow>
          (case session_loop opts pf sessions False st of
             (Inl e, sessions', updated, st') \<Rightarrow> (Inl e, st')
           | (Inr _, sessions', updated, st') \<Rightarrow>
               (Inr (), if updated then saveSessions sessions' st' else st')))"

section \<open>The health evaluator and the transition function of the specification\<close>

text \<open>
  Modelled from the spec: \<open>evaluateHealth\<close> of \<open>health.ts\<close>, which is not part of the
  sources. The policy of the health evaluator, as the action it recommends for a session,
  the answer of the liveness probe, the thresholds and the current time.
\<close>

definition health_policy :: "AgentSession \<Rightarrow> bool \<Rightarrow> Thresholds \<Rightarrow> int \<Rightarrow> HealthAction" where
  "health_policy session alive thresholds now =
     (if state session = Zombie then (if alive then Investigate else ActNone)
      else if \<not> alive then Terminate
      else if zombieMs thresholds \<le> now - lastActivity session then Terminate
      else if staleMs thresholds \<le> now - lastActivity session then Escalate
      else ActNone)"

text \<open>
  Modelled from the spec: \<open>transitionState\<close> of \<open>health.ts\<close>, which is not part of the
  sources. \<open>terminate\<close> leads to \<open>zombie\<close>, every other action holds the state.
\<close>

definition transition_policy :: "AgentState \<Rightarrow> HealthAction \<Rightarrow> AgentState" where
  "transition_policy current act = (if act = Terminate then Zombie else current)"

text \<open>
  A platform follows the specification at the time \<open>now\<close> when its clock reads \<open>now\<close>,
  its health evaluator does not depend on anything but its arguments and that time and
  recommends the action of the policy, and its transition function is the one above.
\<close>

definition follows_spec :: "'w Platform \<Rightarrow> int \<Rightarrow> bool" where
  "follows_spec pf now \<longleftrightarrow>
     (\<forall>w. fst (clock pf w) = now) \<and>
     (\<forall>s a th w w'. fst (evaluateHealth pf s a th w) = fst (evaluateHealth pf s a th w')) \<and>
     (\<forall>s a th w. action (fst (evaluateHealth pf s a th w)) = health_policy s a th now) \<and>
     (\<forall>current check. transitionState pf current check = transition_policy current (action check))"

text \<open>
  The part of the policy that the claims about writes need: a session recorded as
  \<open>zombie\<close> is neither terminated nor escalated.
\<close>

definition spares_zombies :: "'w Platform \<Rightarrow> bool" where
  "spares_zombies pf \<longleftrightarrow>
     (\<forall>s a th w. state s = Zombie \<longrightarrow>
        action (fst (evaluateHealth pf s a th w)) \<noteq> Terminate \<and>
        action (fst (evaluateHealth pf s a th w)) \<noteq> Escalate)"

section \<open>Reading the trace\<close>

text \<open>
  What a log says: the writes of the registry file, the names of the backing sessions
  that were killed, and the sessions (by \<open>id\<close>) that were probed and that the observer
  was called for, each in the order of the log and as often as it happened.
\<close>

fun is_write :: "event \<Rightarrow> bool" where
  "is_write (SaveSessions _) = True"
| "is_write (Call _ _) = False"

definition writes :: "event list \<Rightarrow> event list" where
  "writes tr = filter is_write tr"

fun kill_of :: "event \<Rightarrow> string list" where
  "kill_of (Call sid (KillSession name)) = [name]"
| "kill_of _ = []"

definition kill_calls :: "event list \<Rightarrow> string list" where
  "kill_calls tr = concat (map kill_of tr)"

fun probe_of :: "event \<Rightarrow> string list" where
  "probe_of (Call sid (IsSessionAlive name)) = [sid]"
| "probe_of _ = []"

definition probed :: "event list \<Rightarrow> string list" where
  "probed tr = concat (map probe_of tr)"

fun observation_of :: "event \<Rightarrow> string list" where
  "observation_of (Call sid (OnHealthCheck check)) = [sid]"
| "observation_of _ = []"

definition observed :: "event list \<Rightarrow> string list" where
  "observed tr = concat (map observation_of tr)"

text \<open>A step that writes nothing: the file is as before and no write is logged.\<close>

definition calls_only :: "'w sys \<Rightarrow> 'w sys \<Rightarrow> bool" where
  "calls_only st st' \<longleftrightarrow>
     sessionsFile st' = sessionsFile st \<and> writes (trace st') = writes (trace st)"

text \<open>A step that, besides, neither probes nor calls the observer.\<close>

definition remedies_only :: "'w sys \<Rightarrow> 'w sys \<Rightarrow> bool" where
  "remedies_only st st' \<longleftrightarrow>
     calls_only st st' \<and> probed (trace st') = probed (trace st) \<and>
     observed (trace st') = observed (trace st)"

text \<open>The sessions a tick has to watch: those it does not skip.\<close>

definition monitored :: "AgentSession list \<Rightarrow> AgentSession list" where
  "monitored sessions = filter (\<lambda>s. state s \<noteq> Completed) sessions"

text \<open>The registry as a tick reads it.\<close>

definition registry :: "'w sys \<Rightarrow> AgentSession list" where
  "registry st = (case loadSessions (sessionsFile st) of Inl e \<Rightarrow> [] | Inr sessions \<Rightarrow> sessions)"

text \<open>One direction of the invariant on the escalation fields: no level without a stall.\<close>

definition level_zero_unless_stalled :: "AgentSession \<Rightarrow> bool" where
  "level_zero_unless_stalled s \<longleftrightarrow> (stalledSince s = None \<longrightarrow> escalationLevel s = 0)"

section \<open>A tick whose collaborators give fixed answers\<close>

text \<open>
  What the collaborators and the platform answer in a given world: the reading of the
  clock, the answer of the probe for a name, of the triage for a request, of the observer
  for a check (it returns when there is none), and the check of the health evaluator.
\<close>

record Answers =
  now_is :: int
  alive_is :: "string \<Rightarrow> exn + bool"
  verdict_is :: "TriageRequest \<Rightarrow> exn + TriageVerdict"
  observer_is :: "HealthCheck \<Rightarrow> exn + unit"
  check_is :: "AgentSession \<Rightarrow> bool \<Rightarrow> Thresholds \<Rightarrow> HealthCheck"

definition answers_of :: "'w DaemonOptions \<Rightarrow> 'w Platform \<Rightarrow> 'w \<Rightarrow> Answers" where
  "answers_of opts pf w =
     \<lparr>now_is = fst (clock pf w),
      alive_is = (\<lambda>name. fst (tmux_isSessionAlive opts name w)),
      verdict_is = (\<lambda>req. fst (triage opts req w)),
      observer_is = (\<lambda>check. case onHealthCheck opts of
                                None \<Rightarrow> Inr () | Some callback \<Rightarrow> fst (callback check w)),
      check_is = (\<lambda>s a th. fst (evaluateHealth pf s a th w))\<rparr>"

text \<open>
  The answers are steady when they are the same in every world: the clock does not
  advance, the liveness that the probe reports does not change, and the triage, the
  observer and the health evaluator answer a given request the same way each time.
\<close>

definition steady :: "'w DaemonOptions \<Rightarrow> 'w Platform \<Rightarrow> bool" where
  "steady opts pf \<longleftrightarrow> (\<forall>w w'. answers_of opts pf w = answers_of opts pf w')"

text \<open>
  With answers that do not depend on the world, what the functions of the tick return
  besides the state is a function of the answers: the following definitions repeat the
  ones above without the state, and the lemmas \<open>action_outcome_agrees\<close> to
  \<open>loop_outcome_agrees\<close> below prove that they give what the functions of the tick
  give. They serve the proof that a second tick writes nothing.
\<close>

definition action_outcome :: "Answers \<Rightarrow> string \<Rightarrow> bool \<Rightarrow> AgentSession \<Rightarrow> exn + ActionResult" where
  "action_outcome ans rootDir tier1 session =
     (if escalationLevel session = 0 then Inr \<lparr>terminated = False, stateChanged = False\<rparr>
      else if escalationLevel session = 1 then Inr \<lparr>terminated = False, stateChanged = False\<rparr>
      else if escalationLevel session = 2 then
        (if \<not> tier1 then Inr \<lparr>terminated = False, stateChanged = False\<rparr>
         else
           (case verdict_is ans \<lparr>req_agentName = agentName session, req_root = rootDir,
                                  req_lastActivity = lastActivity session\<rparr> of
              Inl e \<Rightarrow> Inl e
            | Inr verdict \<Rightarrow>
                (if verdict = TriageTerminate
                 then Inr \<lparr>terminated = True, stateChanged = True\<rparr>
                 else Inr \<lparr>terminated = False, stateChanged = False\<rparr>)))
      else Inr \<lparr>terminated = True, stateChanged = True\<rparr>)"

definition stall_started :: "int \<Rightarrow> AgentSession \<Rightarrow> AgentSession" where
  "stall_started now session =
     (if stalledSince session = None then start_stall now session else session)"

definition escalate_outcome ::
  "Answers \<Rightarrow> string \<Rightarrow> int \<Rightarrow> bool \<Rightarrow> AgentSession \<Rightarrow> bool \<Rightarrow> (exn + unit) \<times> AgentSession \<times> bool" where
  "escalate_outcome ans rootDir interval tier1 session updated =
     (let s1 = stall_started (now_is ans) session;
          u1 = (if stalledSince session = None then True else updated);
          s2 = raise_level interval (now_is ans) s1;
          u2 = (if raise_due interval (now_is ans) s1 then True else u1)
      in (case action_outcome ans rootDir tier1 s2 of
            Inl e \<Rightarrow> (Inl e, s2, u2)
          | Inr actionResult \<Rightarrow>
              (if terminated actionResult
               then (Inr (), clear_escalation (s2\<lparr>state := Zombie\<rparr>), True)
               else (Inr (), s2, u2))))"

definition handle_outcome ::
  "Answers \<Rightarrow> string \<Rightarrow> int \<Rightarrow> bool \<Rightarrow> HealthCheck \<Rightarrow> AgentSession \<Rightarrow> bool
     \<Rightarrow> (exn + unit) \<times> AgentSession \<times> bool" where
  "handle_outcome ans rootDir interval tier1 check session updated =
     (if action check = Terminate then (Inr (), clear_escalation (session\<lparr>state := Zombie\<rparr>), True)
      else if action check = Investigate then (Inr (), session, updated)
      else if action check = Escalate then
        escalate_outcome ans rootDir interval tier1 session updated
      else if action check = ActNone \<and> stalledSince session \<noteq> None then
        (Inr (), session\<lparr>stalledSince := None, escalationLevel := 0\<rparr>, True)
      else (Inr (), session, updated))"

definition body_outcome ::
  "'w DaemonOptions \<Rightarrow> 'w Platform \<Rightarrow> Answers \<Rightarrow> AgentSession \<Rightarrow> bool
     \<Rightarrow> (exn + unit) \<times> AgentSession \<times> bool" where
  "body_outcome opts pf ans session updated =
     (if state session = Completed then (Inr (), session, updated)
      else
        (case alive_is ans (tmuxSession session) of
           Inl e \<Rightarrow> (Inl e, session, updated)
         | Inr tmuxAlive \<Rightarrow>
             (let check = check_is ans session tmuxAlive
                    \<lparr>staleMs = staleThresholdMs opts, zombieMs = zombieThresholdMs opts\<rparr>;
                  newState = transitionState pf (state session) check;
                  s1 = (if newState \<noteq> state session then session\<lparr>state := newState\<rparr> else session);
                  u1 = (if newState \<noteq> state session then True else updated)
              in (case observer_is ans check of
                    Inl e \<Rightarrow> (Inl e, s1, u1)
                  | Inr _ \<Rightarrow>
                      handle_outcome ans (root opts)
                        (case nudgeIntervalMs opts of None \<Rightarrow> 60000 | Some i \<Rightarrow> i)
                        (case tier1Enabled opts of None \<Rightarrow> False | Some b \<Rightarrow> b)
                        check s1 u1))))"

fun loop_outcome ::
  "'w DaemonOptions \<Rightarrow> 'w Platform \<Rightarrow> Answers \<Rightarrow> AgentSession list \<Rightarrow> bool
     \<Rightarrow> (exn + unit) \<times> AgentSession list \<times> bool" where
  "loop_outcome opts pf ans [] updated = (Inr (), [], updated)"
| "loop_outcome opts pf ans (session # rest) updated =
     (case body_outcome opts pf ans session updated of
        (Inl e, s', u') \<Rightarrow> (Inl e, s' # rest, u')
      | (Inr _, s', u') \<Rightarrow>
          (case loop_outcome opts pf ans rest u' of
             (r, rest', u'') \<Rightarrow> (r, s' # rest', u'')))"

definition outcome :: "'r \<times> 's \<times> bool \<times> 'w sys \<Rightarrow> 'r \<times> 's \<times> bool" where
  "outcome x = (fst x, fst (snd x), fst (snd (snd x)))"

section \<open>Scripted collaborators\<close>

text \<open>
  Collaborators for concrete runs, over a world that counts the triage calls made so
  far: the probe answers by name, the triage answers by the number of the call, the
  observer answers by the check, and every kill and every nudge fails.
\<close>

definition scripted_options ::
  "(string \<Rightarrow> exn + bool) \<Rightarrow> (nat \<Rightarrow> exn + TriageVerdict) \<Rightarrow> bool option
     \<Rightarrow> (HealthCheck \<Rightarrow> exn + unit) option \<Rightarrow> nat DaemonOptions" where
  "scripted_options alive verdicts tier1 observer =
     \<lparr>root = ''/project'', staleThresholdMs = 60000, zombieThresholdMs = 600000,
      nudgeIntervalMs = Some 60000, tier1Enabled = tier1,
      onHealthCheck = map_option (\<lambda>f check w. (f check, w)) observer,
      tmux_isSessionAlive = (\<lambda>name w. (alive name, w)),
      tmux_killSession = (\<lambda>name w. (Inl ''no such session'', w)),
      triage = (\<lambda>req w. (verdicts w, Suc w)),
      nudge = (\<lambda>r a m f w. (Inl ''send-keys failed'', w))\<rparr>"

definition scripted_platform :: "int \<Rightarrow> nat Platform" where
  "scripted_platform now =
     \<lparr>clock = (\<lambda>w. (now, w)),
      evaluateHealth = (\<lambda>s a th w.
        (\<lparr>classification = transition_policy (state s) (health_policy s a th now),
          action = health_policy s a th now\<rparr>, w)),
      transitionState = (\<lambda>current check. transition_policy current (action check))\<rparr>"

text \<open>The session of \<open>makeSession\<close> in the test suite, last active at time 0.\<close>

definition makeSession :: AgentSession where
  "makeSession =
     \<lparr>id' = ''session-123-test-agent'', agentName = ''test-agent'', capability = ''builder'',
      worktreePath = ''/tmp/wt'', branchName = ''overstory/test-agent/task-1'',
      beadId = ''task-1'', tmuxSession = ''overstory-test-agent'', state = Working,
      pid = 12345, parentAgent = None, depth = 0, startedAt = ''1970-01-01T00:00:00.000Z'',
      lastActivity = 0, escalationLevel = 0, stalledSince = None\<rparr>"

text \<open>
  A second session, stalled since 35 seconds before time 0; the same one raised to level
  2; and a session that has completed.
\<close>

definition otherSession :: AgentSession where
  "otherSession = makeSession\<lparr>id' := ''session-456-other-agent'', agentName := ''other-agent'',
     tmuxSession := ''overstory-other-agent''\<rparr>"

definition stalledSession :: AgentSession where
  "stalledSession = otherSession\<lparr>stalledSince := Some (- 35000)\<rparr>"

definition escalatedSession :: AgentSession where
  "escalatedSession = stalledSession\<lparr>escalationLevel := 2\<rparr>"

definition completedSession :: AgentSession where
  "completedSession = makeSession\<lparr>id' := ''session-789-done-agent'', agentName := ''done-agent'',
     tmuxSession := ''overstory-done-agent'', state := Completed\<rparr>"

text \<open>A registry file holding the given sessions, in a world where nothing has happened.\<close>

definition on_disk :: "AgentSession list \<Rightarrow> nat sys" where
  "on_disk sessions = \<lparr>world = 0, trace = [], sessionsFile = JsonArray (map stringify sessions)\<rparr>"

text \<open>A record written before the escalation fields existed, and a registry holding it.\<close>

definition legacyRecord :: RawSession where
  "legacyRecord = (stringify makeSession)\<lparr>raw_escalationLevel := None, raw_stalledSince := None\<rparr>"

definition legacy_disk :: "nat sys" where
  "legacy_disk = \<lparr>world = 0, trace = [], sessionsFile = JsonArray [legacyRecord]\<rparr>"

text \<open>Every session alive, the triage enabled and throwing, no observer.\<close>

definition triage_down :: "nat DaemonOptions" where
  "triage_down =
     scripted_options (\<lambda>name. Inr True) (\<lambda>k. Inl ''triage unavailable'') (Some True) None"

text \<open>Every session alive, an observer that returns, the triage disabled by default.\<close>

definition watching :: "nat DaemonOptions" where
  "watching =
     scripted_options (\<lambda>name. Inr True) (\<lambda>k. Inr Extend) None (Some (\<lambda>check. Inr ()))"

text \<open>No session alive, an observer that returns, the triage disabled by default.\<close>

definition all_gone :: "nat DaemonOptions" where
  "all_gone =
     scripted_options (\<lambda>name. Inr False) (\<lambda>k. Inr Extend) None (Some (\<lambda>check. Inr ()))"

text \<open>Every session alive, an observer that returns, the triage enabled with one answer.\<close>

definition triage_says :: "TriageVerdict \<Rightarrow> nat DaemonOptions" where
  "triage_says verdict =
     scripted_options (\<lambda>name. Inr True) (\<lambda>k. Inr verdict) (Some True) (Some (\<lambda>check. Inr ()))"

text \<open>
  Every session alive, the triage enabled: its first answer is \<open>extend\<close>, every later
  one \<open>terminate\<close>.
\<close>

definition fickle_triage :: "nat DaemonOptions" where
  "fickle_triage =
     scripted_options (\<lambda>name. Inr True)
       (\<lambda>k. if k = 0 then Inr Extend else Inr TriageTerminate) (Some True) None"

section \<open>Frame: what a step leaves alone\<close>

lemma writes_append [simp]: "writes (a @ b) = writes a @ writes b"
  by (simp add: writes_def)

lemma probed_append [simp]: "probed (a @ b) = probed a @ probed b"
  by (simp add: probed_def)

lemma observed_append [simp]: "observed (a @ b) = observed a @ observed b"
  by (simp add: observed_def)

lemma kill_calls_append [simp]: "kill_calls (a @ b) = kill_calls a @ kill_calls b"
  by (simp add: kill_calls_def)

lemma writes_simps [simp]:
  "writes [] = []" "writes (Call sid c # tr) = writes tr"
  "writes (SaveSessions ss # tr) = SaveSessions ss # writes tr"
  by (simp_all add: writes_def)

lemma probed_simps [simp]: "probed [] = []" "probed (e # tr) = probe_of e @ probed tr"
  by (simp_all add: probed_def)

lemma observed_simps [simp]:
  "observed [] = []" "observed (e # tr) = observation_of e @ observed tr"
  by (simp_all add: observed_def)

lemma kill_calls_simps [simp]:
  "kill_calls [] = []" "kill_calls (e # tr) = kill_of e @ kill_calls tr"
  by (simp_all add: kill_calls_def)

lemma emit_simps [simp]:
  "world (emit e st) = world st" "sessionsFile (emit e st) = sessionsFile st"
  "trace (emit e st) = trace st @ [e]"
  by (simp_all add: emit_def)

lemma perform_eq:
  "perform sid c f st = (r, st') \<Longrightarrow>
     sessionsFile st' = sessionsFile st \<and> trace st' = trace st @ [Call sid c]"
  by (auto simp: perform_def emit_def split: prod.splits)

lemma perform_snd [simp]:
  "sessionsFile (snd (perform sid c f st)) = sessionsFile st"
  "trace (snd (perform sid c f st)) = trace st @ [Call sid c]"
  by (simp_all add: perform_def emit_def split: prod.splits)

lemma now_ms_eq:
  "now_ms pf st = (t, st') \<Longrightarrow> sessionsFile st' = sessionsFile st \<and> trace st' = trace st"
  by (auto simp: now_ms_def split: prod.splits)

lemma kill_if_alive_frame [simp]:
  "sessionsFile (kill_if_alive opts s a st) = sessionsFile st"
  "trace (kill_if_alive opts s a st) =
     trace st @ (if a then [Call (id' s) (KillSession (tmuxSession s))] else [])"
  by (simp_all add: kill_if_alive_def)

lemma nudge_swallowed_frame [simp]:
  "sessionsFile (nudge_swallowed opts s m st) = sessionsFile st"
  "trace (nudge_swallowed opts s m st) =
     trace st @ [Call (id' s) (Nudge (root opts) (agentName s) m True)]"
  by (simp_all add: nudge_swallowed_def)

lemma calls_only_refl [simp]: "calls_only st st"
  by (simp add: calls_only_def)

lemma calls_only_trans: "calls_only a b \<Longrightarrow> calls_only b c \<Longrightarrow> calls_only a c"
  by (simp add: calls_only_def)

lemma calls_only_perform: "perform sid c f st = (r, st') \<Longrightarrow> calls_only st st'"
  by (auto simp: calls_only_def dest!: perform_eq)

lemma calls_only_world [simp]: "calls_only st (st\<lparr>world := w\<rparr>)"
  by (simp add: calls_only_def)

lemma remedies_only_refl [simp]: "remedies_only st st"
  by (simp add: remedies_only_def)

lemma remedies_only_trans:
  "remedies_only a b \<Longrightarrow> remedies_only b c \<Longrightarrow> remedies_only a c"
  by (simp add: remedies_only_def calls_only_def)

lemma remedies_only_now: "now_ms pf st = (t, st') \<Longrightarrow> remedies_only st st'"
  by (auto simp: remedies_only_def calls_only_def dest!: now_ms_eq)

lemma remedies_only_kill [simp]: "remedies_only st (kill_if_alive opts s a st)"
  by (simp add: remedies_only_def calls_only_def)

lemma remedies_only_nudge [simp]: "remedies_only st (nudge_swallowed opts s m st)"
  by (simp add: remedies_only_def calls_only_def)

lemma remedies_only_triage:
  "perform sid (Triage req) f st = (r, st') \<Longrightarrow> remedies_only st st'"
  by (auto simp: remedies_only_def calls_only_def dest!: perform_eq)

lemma executeEscalationAction_remedies_only:
  "executeEscalationAction opts s a t st = (r, st') \<Longrightarrow> remedies_only st st'"
  by (auto simp: executeEscalationAction_def split: if_splits prod.splits sum.splits
        dest!: remedies_only_triage
        intro: remedies_only_trans[OF _ remedies_only_kill]
               remedies_only_trans[OF _ remedies_only_nudge])

lemma raise_step_remedies_only:
  "raise_step pf i s u st = (s', u', st') \<Longrightarrow> remedies_only st st'"
  by (auto simp: raise_step_def split: if_splits prod.splits
        dest!: remedies_only_now intro: remedies_only_trans)

lemma escalate_branch_remedies_only:
  "escalate_branch opts pf i t a s u st = (r, s', u', st') \<Longrightarrow> remedies_only st st'"
  by (auto simp: escalate_branch_def split: if_splits prod.splits sum.splits
        dest!: raise_step_remedies_only executeEscalationAction_remedies_only
        intro: remedies_only_trans)

lemma handle_action_remedies_only:
  "handle_action opts pf i t c a s u st = (r, s', u', st') \<Longrightarrow> remedies_only st st'"
  by (auto simp: handle_action_def split: if_splits dest!: escalate_branch_remedies_only)

lemma handle_action_calls_only:
  "handle_action opts pf i t c a s u st = (r, s', u', st') \<Longrightarrow> calls_only st st'"
  by (auto simp: remedies_only_def dest!: handle_action_remedies_only)

lemma loop_body_calls_only:
  "loop_body opts pf s u st = (r, s', u', st') \<Longrightarrow> calls_only st st'"
  apply (auto simp: loop_body_def apply_check_def Let_def
       split: if_splits prod.splits sum.splits option.splits
       dest!: calls_only_perform handle_action_calls_only)
  apply (blast intro: calls_only_trans calls_only_world)+
  done

lemma session_loop_calls_only:
  "session_loop opts pf ss u st = (r, ss', u', st') \<Longrightarrow> calls_only st st'"
proof (induction ss arbitrary: u st r ss' u' st')
  case Nil
  then show ?case by simp
next
  case (Cons s ss)
  then show ?case
    by (auto split: prod.splits sum.splits dest!: loop_body_calls_only intro: calls_only_trans)
qed

lemma calls_only_writes: "calls_only st st' \<Longrightarrow> writes (trace st') = writes (trace st)"
  by (simp add: calls_only_def)

lemma calls_only_file: "calls_only st st' \<Longrightarrow> sessionsFile st' = sessionsFile st"
  by (simp add: calls_only_def)

section \<open>Which sessions a tick visits\<close>

lemma loop_body_completed:
  "state s = Completed \<Longrightarrow> loop_body opts pf s u st = (Inr (), s, u, st)"
  by (simp add: loop_body_def)

text \<open>The calls of the loop body on a session it does not skip.\<close>

lemma loop_body_probed:
  assumes "state s \<noteq> Completed" and "loop_body opts pf s u st = (r, s', u', st')"
  shows "probed (trace st') = probed (trace st) @ [id' s]"
  using assms
  by (auto simp: loop_body_def apply_check_def Let_def remedies_only_def
        split: if_splits prod.splits sum.splits option.splits
        dest!: perform_eq handle_action_remedies_only)

lemma loop_body_observed:
  assumes "state s \<noteq> Completed" and "loop_body opts pf s u st = (r, s', u', st')"
  shows "observed (trace st') =
           observed (trace st) @ (if onHealthCheck opts = None then [] else [id' s]) \<or>
         (observed (trace st') = observed (trace st) \<and> r \<noteq> Inr ())"
  using assms
  by (auto simp: loop_body_def apply_check_def Let_def remedies_only_def
        split: if_splits prod.splits sum.splits option.splits
        dest!: perform_eq handle_action_remedies_only)

lemma loop_body_session_kept:
  "loop_body opts pf s u st = (r, s', u', st') \<Longrightarrow> state s = Completed \<Longrightarrow> s' = s"
  by (simp add: loop_body_def)

lemma monitored_Cons [simp]:
  "monitored (s # ss) = (if state s = Completed then monitored ss else s # monitored ss)"
  "monitored [] = []"
  by (simp_all add: monitored_def)

lemma session_loop_length:
  "session_loop opts pf ss u st = (r, ss', u', st') \<Longrightarrow> length ss' = length ss"
  by (induction ss arbitrary: u st r ss' u' st') (auto split: prod.splits sum.splits)

lemma session_loop_completed_kept:
  "session_loop opts pf ss u st = (r, ss', u', st') \<Longrightarrow> i < length ss \<Longrightarrow>
     state (ss ! i) = Completed \<Longrightarrow> ss' ! i = ss ! i"
proof (induction ss arbitrary: u st r ss' u' st' i)
  case Nil
  then show ?case by simp
next
  case (Cons s ss)
  show ?case
  proof (cases i)
    case 0
    with Cons.prems show ?thesis
      by (auto split: prod.splits sum.splits dest: loop_body_session_kept)
  next
    case (Suc j)
    with Cons.prems Cons.IH[of _ _ _ _ _ _ j] show ?thesis
      by (auto split: prod.splits sum.splits)
  qed
qed

lemma session_loop_probed:
  "session_loop opts pf ss u st = (r, ss', u', st') \<Longrightarrow>
     \<exists>k. probed (trace st') = probed (trace st) @ map id' (take k (monitored ss)) \<and>
         (r = Inr () \<longrightarrow> k = length (monitored ss))"
proof (induction ss arbitrary: u st r ss' u' st')
  case Nil
  then show ?case by simp
next
  case (Cons s ss)
  obtain r1 s1 u1 st1 where body: "loop_body opts pf s u st = (r1, s1, u1, st1)"
    by (cases "loop_body opts pf s u st") auto
  show ?case
  proof (cases "state s = Completed")
    case True
    with body have "st1 = st" "r1 = Inr ()" "u1 = u" by (simp_all add: loop_body_def)
    with Cons.prems body Cons.IH[of u st] True show ?thesis
      by (auto split: prod.splits sum.splits)
  next
    case False
    note p = loop_body_probed[OF False body]
    show ?thesis
    proof (cases r1)
      case (Inl e)
      with Cons.prems body p False
      have "probed (trace st') = probed (trace st) @ map id' (take 1 (monitored (s # ss)))"
        and "r \<noteq> Inr ()"
        by auto
      then show ?thesis by blast
    next
      case (Inr x)
      with Cons.prems body obtain rest'
        where rest: "session_loop opts pf ss u1 st1 = (r, rest', u', st')"
        by (auto split: prod.splits)
      from Cons.IH[OF rest] obtain k
        where k: "probed (trace st') = probed (trace st1) @ map id' (take k (monitored ss))"
          "r = Inr () \<longrightarrow> k = length (monitored ss)" by blast
      with p False
      have "probed (trace st') = probed (trace st) @ map id' (take (Suc k) (monitored (s # ss)))"
        and "r = Inr () \<longrightarrow> Suc k = length (monitored (s # ss))" by auto
      then show ?thesis by blast
    qed
  qed
qed


lemma session_loop_observed:
  "session_loop opts pf ss u st = (r, ss', u', st') \<Longrightarrow> onHealthCheck opts \<noteq> None \<Longrightarrow>
     \<exists>k. observed (trace st') = observed (trace st) @ map id' (take k (monitored ss)) \<and>
         (r = Inr () \<longrightarrow> k = length (monitored ss))"
proof (induction ss arbitrary: u st r ss' u' st')
  case Nil
  then show ?case by simp
next
  case (Cons s ss)
  obtain r1 s1 u1 st1 where body: "loop_body opts pf s u st = (r1, s1, u1, st1)"
    by (cases "loop_body opts pf s u st") auto
  show ?case
  proof (cases "state s = Completed")
    case True
    with body have "st1 = st" "r1 = Inr ()" "u1 = u" by (simp_all add: loop_body_def)
    with Cons.prems body Cons.IH[of u st] True show ?thesis
      by (auto split: prod.splits sum.splits)
  next
    case False
    note p = loop_body_observed[OF False body]
    show ?thesis
    proof (cases r1)
      case (Inl e)
      with Cons.prems body p False
      have "observed (trace st') = observed (trace st) @ map id' (take 1 (monitored (s # ss))) \<or>
            observed (trace st') = observed (trace st) @ map id' (take 0 (monitored (s # ss)))"
        and "r \<noteq> Inr ()"
        by auto
      then show ?thesis by blast
    next
      case (Inr x)
      with Cons.prems body obtain rest'
        where rest: "session_loop opts pf ss u1 st1 = (r, rest', u', st')"
        by (auto split: prod.splits)
      from Cons.IH[OF rest Cons.prems(2)] obtain k
        where k: "observed (trace st') = observed (trace st1) @ map id' (take k (monitored ss))"
          "r = Inr () \<longrightarrow> k = length (monitored ss)" by blast
      with p False Inr Cons.prems(2)
      have "observed (trace st') =
              observed (trace st) @ map id' (take (Suc k) (monitored (s # ss)))"
        and "r = Inr () \<longrightarrow> Suc k = length (monitored (s # ss))" by auto
      then show ?thesis by blast
    qed
  qed
qed

lemma session_loop_unobserved:
  "session_loop opts pf ss u st = (r, ss', u', st') \<Longrightarrow> onHealthCheck opts = None \<Longrightarrow>
     observed (trace st') = observed (trace st)"
proof (induction ss arbitrary: u st r ss' u' st')
  case Nil
  then show ?case by simp
next
  case (Cons s ss)
  obtain r1 s1 u1 st1 where body: "loop_body opts pf s u st = (r1, s1, u1, st1)"
    by (cases "loop_body opts pf s u st") auto
  show ?case
  proof (cases "state s = Completed")
    case True
    with body have "st1 = st" "r1 = Inr ()" "u1 = u" by (simp_all add: loop_body_def)
    with Cons.prems body Cons.IH[of u st] True show ?thesis
      by (auto split: prod.splits sum.splits)
  next
    case False
    from loop_body_observed[OF False body] Cons.prems(2)
    have p: "observed (trace st1) = observed (trace st)" by auto
    with Cons.prems body Cons.IH show ?thesis
      by (auto split: prod.splits sum.splits)
  qed
qed

lemma saveSessions_trace [simp]:
  "trace (saveSessions ss st) = trace st @ [SaveSessions ss]"
  "sessionsFile (saveSessions ss st) = JsonArray (map stringify ss)"
  "world (saveSessions ss st) = world st"
  by (simp_all add: saveSessions_def emit_def)

lemma runDaemonTick_loop:
  assumes "loadSessions (sessionsFile st) = Inr sessions"
    and "session_loop opts pf sessions False st = (r, sessions', updated, st1)"
  shows "runDaemonTick opts pf st =
           (r, if r = Inr () \<and> updated then saveSessions sessions' st1 else st1)"
  using assms by (auto simp: runDaemonTick_def split: sum.splits)

section \<open>What the raise step changes\<close>

lemma raise_step_shape:
  assumes "raise_step pf i s u st = (s2, u2, st2)"
  shows "s2\<lparr>state := z, escalationLevel := l, stalledSince := t\<rparr> =
         s\<lparr>state := z, escalationLevel := l, stalledSince := t\<rparr>"
    and "trace st2 = trace st" and "sessionsFile st2 = sessionsFile st"
    and "id' s2 = id' s" and "tmuxSession s2 = tmuxSession s" and "state s2 = state s"
    and "agentName s2 = agentName s" and "lastActivity s2 = lastActivity s"
  using assms
  by (auto simp: raise_step_def raise_level_def start_stall_def split: if_splits prod.splits
        dest!: now_ms_eq)

section \<open>A set flag means a changed record\<close>

lemma raise_level_same:
  "raise_level i now s = s \<Longrightarrow> \<not> raise_due i now s"
  by (cases "js_floor_div (stalledMs_at now s) i")
     (auto simp: raise_level_def raise_due_def expectedLevel_def
        dest: arg_cong[where f=escalationLevel])

lemma raise_step_same:
  "raise_step pf i s u st = (s2, u2, st2) \<Longrightarrow> s2 = s \<Longrightarrow> u2 = u"
  apply (auto simp: raise_step_def start_stall_def split: if_splits prod.splits
        dest: raise_level_same)
  apply (auto simp: raise_level_def split: if_splits dest: arg_cong[where f=stalledSince])
  done

lemma action_result_shape:
  "executeEscalationAction opts s a t st = (Inr res, st') \<Longrightarrow> stateChanged res = terminated res"
  by (auto simp: executeEscalationAction_def split: if_splits prod.splits sum.splits)

lemma escalate_branch_state:
  assumes "escalate_branch opts pf i t a s u st = (r, s', u', st')"
  shows "state s' = state s \<or> state s' = Zombie"
proof -
  obtain s2 u2 st2 where rs: "raise_step pf i s u st = (s2, u2, st2)"
    by (cases "raise_step pf i s u st") auto
  from assms rs raise_step_shape(6)[OF rs] show ?thesis
    by (auto simp: escalate_branch_def clear_escalation_def split: prod.splits sum.splits if_splits)
qed

lemma escalate_branch_same:
  assumes "escalate_branch opts pf i t a s u st = (r, s', u', st')"
    and "state s \<noteq> Zombie" and "s' = s"
  shows "u' = u"
proof -
  obtain s2 u2 st2 where rs: "raise_step pf i s u st = (s2, u2, st2)"
    by (cases "raise_step pf i s u st") auto
  note same = raise_step_same[OF rs] and st = raise_step_shape(6)[OF rs]
  from assms rs same st show ?thesis
    by (auto simp: escalate_branch_def clear_escalation_def
          split: prod.splits sum.splits if_splits dest: action_result_shape)
qed

lemma handle_action_state:
  "handle_action opts pf i t c a s u st = (r, s', u', st') \<Longrightarrow>
     state s' = state s \<or>
     (state s' = Zombie \<and> (action c = Terminate \<or> action c = Escalate))"
  by (auto simp: handle_action_def clear_escalation_def split: if_splits
        dest: escalate_branch_state)

lemma handle_action_same:
  assumes "handle_action opts pf i t c a s u st = (r, s', u', st')" and "s' = s"
  shows "u' = u \<or> (state s = Zombie \<and> (action c = Terminate \<or> action c = Escalate))"
proof (cases "action c")
  case ActNone
  show ?thesis
  proof (cases "stalledSince s")
    case None
    with assms ActNone show ?thesis by (simp add: handle_action_def)
  next
    case (Some t0)
    with assms(1) ActNone have "stalledSince s' = None" by (auto simp: handle_action_def)
    with assms(2) Some show ?thesis by simp
  qed
next
  case Escalate
  with assms(1) have "escalate_branch opts pf i t a s u st = (r, s', u', st')"
    by (simp add: handle_action_def)
  from escalate_branch_same[OF this _ assms(2)] Escalate show ?thesis by blast
next
  case Investigate
  with assms show ?thesis by (simp add: handle_action_def)
next
  case Terminate
  with assms(1) have "state s' = Zombie" by (auto simp: handle_action_def clear_escalation_def)
  with assms(2) Terminate show ?thesis by simp
qed

text \<open>The loop body once the probe and the health evaluator have answered.\<close>

lemma loop_body_answered:
  assumes "state s \<noteq> Completed"
    and "tmux_isSessionAlive opts (tmuxSession s) (world st) = (Inr alive, w1)"
    and "evaluateHealth pf s alive
           \<lparr>staleMs = staleThresholdMs opts, zombieMs = zombieThresholdMs opts\<rparr> w1 = (check, w2)"
  shows "loop_body opts pf s u st =
           apply_check opts pf check alive s u
             ((emit (Call (id' s) (IsSessionAlive (tmuxSession s))) (st\<lparr>world := w1\<rparr>))
                \<lparr>world := w2\<rparr>)"
  using assms
  by (simp add: loop_body_def perform_def)

text \<open>Under the policy for zombies, a set flag means a changed record.\<close>

lemma apply_check_same:
  assumes "apply_check opts pf check alive s u st = (r, s', u', st')" and "s' = s"
    and spare: "state s = Zombie \<Longrightarrow> action check \<noteq> Terminate \<and> action check \<noteq> Escalate"
  shows "u' = u"
proof -
  define newState where "newState = transitionState pf (state s) check"
  define s1 where "s1 = (if newState \<noteq> state s then s\<lparr>state := newState\<rparr> else s)"
  define u1 where "u1 = (if newState \<noteq> state s then True else u)"
  define watched where "watched = (case onHealthCheck opts of
              None \<Rightarrow> (Inr (), st)
            | Some callback \<Rightarrow> perform (id' s) (OnHealthCheck check) (callback check) st)"
  have s1_state: "state s1 = newState"
    by (simp add: s1_def)
  have s1_same: "s1 = s \<Longrightarrow> u1 = u"
  proof (cases "newState = state s")
    case True
    then show ?thesis by (simp add: u1_def)
  next
    case False
    assume "s1 = s"
    then have "state s1 = state s" by simp
    with False show ?thesis by (simp add: s1_def)
  qed
  obtain ro st3 where w: "watched = (ro, st3)"
    by (cases watched) auto
  show ?thesis
  proof (cases ro)
    case (Inl e)
    with assms(1) w have "s' = s1" "u' = u1"
      by (auto simp: apply_check_def Let_def newState_def s1_def u1_def watched_def
            split: if_splits)
    with assms(2) s1_same show ?thesis by simp
  next
    case (Inr x)
    with assms(1) w
    have ha: "handle_action opts pf
        (case nudgeIntervalMs opts of None \<Rightarrow> 60000 | Some i \<Rightarrow> i)
        (case tier1Enabled opts of None \<Rightarrow> False | Some b \<Rightarrow> b)
        check alive s1 u1 st3 = (r, s', u', st')"
      by (auto simp: apply_check_def Let_def newState_def s1_def u1_def watched_def
            split: if_splits)
    show ?thesis
    proof (cases "newState = state s")
      case True
      then have "s1 = s" "u1 = u" by (simp_all add: s1_def u1_def)
      with handle_action_same[OF ha] assms(2) spare show ?thesis by auto
    next
      case False
      with handle_action_state[OF ha] s1_state assms(2) spare show ?thesis by auto
    qed
  qed
qed

lemma loop_body_same:
  assumes "spares_zombies pf"
    and "loop_body opts pf s u st = (r, s', u', st')" and "s' = s"
  shows "u' = u"
proof (cases "state s = Completed")
  case True
  with assms(2) show ?thesis by (simp add: loop_body_def)
next
  case False
  show ?thesis
  proof (cases "fst (tmux_isSessionAlive opts (tmuxSession s) (world st))")
    case (Inl e)
    with assms(2) False show ?thesis
      by (auto simp: loop_body_def perform_def split: prod.splits)
  next
    case (Inr alive)
    let ?th = "\<lparr>staleMs = staleThresholdMs opts, zombieMs = zombieThresholdMs opts\<rparr>"
    obtain w1 where probe: "tmux_isSessionAlive opts (tmuxSession s) (world st) = (Inr alive, w1)"
      using Inr by (cases "tmux_isSessionAlive opts (tmuxSession s) (world st)") auto
    obtain check w2 where ev: "evaluateHealth pf s alive ?th w1 = (check, w2)"
      by (cases "evaluateHealth pf s alive ?th w1") auto
    from assms(1) have "state s = Zombie \<longrightarrow>
        action (fst (evaluateHealth pf s alive ?th w1)) \<noteq> Terminate \<and>
        action (fst (evaluateHealth pf s alive ?th w1)) \<noteq> Escalate"
      unfolding spares_zombies_def by blast
    with ev have spare:
      "state s = Zombie \<Longrightarrow> action check \<noteq> Terminate \<and> action check \<noteq> Escalate"
      by simp
    from assms(2) have "apply_check opts pf check alive s u
             ((emit (Call (id' s) (IsSessionAlive (tmuxSession s))) (st\<lparr>world := w1\<rparr>))
                \<lparr>world := w2\<rparr>) = (r, s', u', st')"
      by (simp add: loop_body_answered[OF False probe ev])
    from apply_check_same[OF this assms(3) spare] show ?thesis .
  qed
qed

lemma session_loop_same:
  assumes "spares_zombies pf"
  shows "session_loop opts pf ss u st = (r, ss', u', st') \<Longrightarrow> ss' = ss \<Longrightarrow> u' = u"
proof (induction ss arbitrary: u st r ss' u' st')
  case Nil
  then show ?case by simp
next
  case (Cons s ss)
  obtain r1 s1 u1 st1 where body: "loop_body opts pf s u st = (r1, s1, u1, st1)"
    by (cases "loop_body opts pf s u st") auto
  show ?case
  proof (cases r1)
    case (Inl e)
    with Cons.prems body loop_body_same[OF assms body] show ?thesis by auto
  next
    case (Inr x)
    with Cons.prems body obtain rest'
      where rest: "session_loop opts pf ss u1 st1 = (r, rest', u', st')" and ss': "ss' = s1 # rest'"
      by (auto split: prod.splits)
    with Cons.prems(2) have "s1 = s" "rest' = ss" by simp_all
    with loop_body_same[OF assms body] Cons.IH[OF rest] show ?thesis by simp
  qed
qed

section \<open>The outcome of a tick under fixed answers\<close>

lemma outcome_simp [simp]: "outcome (r, s, u, st) = (r, s, u)"
  by (simp add: outcome_def)

lemma fixed_answers:
  assumes "\<forall>w. answers_of opts pf w = ans"
  shows "fst (clock pf w) = now_is ans"
    and "fst (tmux_isSessionAlive opts name w) = alive_is ans name"
    and "fst (triage opts req w) = verdict_is ans req"
    and "onHealthCheck opts = Some callback \<Longrightarrow> fst (callback check w) = observer_is ans check"
    and "onHealthCheck opts = None \<Longrightarrow> observer_is ans check = Inr ()"
    and "fst (evaluateHealth pf s a th w) = check_is ans s a th"
proof -
  from assms have a: "ans = answers_of opts pf w" by simp
  show "fst (clock pf w) = now_is ans"
    and "fst (tmux_isSessionAlive opts name w) = alive_is ans name"
    and "fst (triage opts req w) = verdict_is ans req"
    and "onHealthCheck opts = Some callback \<Longrightarrow> fst (callback check w) = observer_is ans check"
    and "onHealthCheck opts = None \<Longrightarrow> observer_is ans check = Inr ()"
    and "fst (evaluateHealth pf s a th w) = check_is ans s a th"
    by (simp_all add: a answers_of_def)
qed

lemma action_outcome_agrees:
  assumes "\<forall>w. answers_of opts pf w = ans"
  shows "fst (executeEscalationAction opts s a tier1 st) = action_outcome ans (root opts) tier1 s"
  by (auto simp: executeEscalationAction_def action_outcome_def perform_def
        fixed_answers(3)[OF assms, of _ "world st", symmetric]
        split: prod.splits sum.splits)

lemma raise_step_agrees:
  assumes "\<forall>w. answers_of opts pf w = ans"
    and "raise_step pf interval s u st = (s2, u2, st2)"
  shows "s2 = raise_level interval (now_is ans) (stall_started (now_is ans) s)"
    and "u2 = (if raise_due interval (now_is ans) (stall_started (now_is ans) s) then True
               else if stalledSince s = None then True else u)"
proof -
  obtain t1 w1 where c1: "clock pf (world st) = (t1, w1)"
    by (cases "clock pf (world st)") auto
  obtain t2 w2 where c2: "clock pf w1 = (t2, w2)"
    by (cases "clock pf w1") auto
  from fixed_answers(1)[OF assms(1), of "world st"] fixed_answers(1)[OF assms(1), of w1] c1 c2
  have t: "t1 = now_is ans" "t2 = now_is ans" by simp_all
  from assms(2) c1 c2 t
  show "s2 = raise_level interval (now_is ans) (stall_started (now_is ans) s)"
    and "u2 = (if raise_due interval (now_is ans) (stall_started (now_is ans) s) then True
               else if stalledSince s = None then True else u)"
    by (auto simp: raise_step_def now_ms_def stall_started_def split: if_splits)
qed

lemma action_outcome_shape:
  "action_outcome ans rootDir tier1 s = Inr res \<Longrightarrow> stateChanged res = terminated res"
  by (auto simp: action_outcome_def split: if_splits sum.splits)

lemma escalate_outcome_agrees:
  assumes "\<forall>w. answers_of opts pf w = ans"
  shows "outcome (escalate_branch opts pf interval tier1 a s u st) =
           escalate_outcome ans (root opts) interval tier1 s u"
proof -
  let ?s2 = "raise_level interval (now_is ans) (stall_started (now_is ans) s)"
  let ?u2 = "if raise_due interval (now_is ans) (stall_started (now_is ans) s) then True
             else if stalledSince s = None then True else u"
  obtain s2 u2 st2 where rs: "raise_step pf interval s u st = (s2, u2, st2)"
    by (cases "raise_step pf interval s u st") auto
  from raise_step_agrees[OF assms rs] rs
  have rs': "raise_step pf interval s u st = (?s2, ?u2, st2)"
    by simp
  obtain ar st3 where ex: "executeEscalationAction opts ?s2 a tier1 st2 = (ar, st3)"
    by (cases "executeEscalationAction opts ?s2 a tier1 st2") auto
  from action_outcome_agrees[OF assms, of ?s2 a tier1 st2] ex
  have ar: "action_outcome ans (root opts) tier1 ?s2 = ar"
    by simp
  show ?thesis
  proof (cases ar)
    case (Inl e)
    have "escalate_branch opts pf interval tier1 a s u st = (Inl e, ?s2, ?u2, st3)"
      unfolding escalate_branch_def rs' using ex Inl by simp
    moreover have "escalate_outcome ans (root opts) interval tier1 s u = (Inl e, ?s2, ?u2)"
      unfolding escalate_outcome_def Let_def ar using Inl by simp
    ultimately show ?thesis by simp
  next
    case (Inr res)
    from action_outcome_shape[OF ar[unfolded Inr]]
    have sc: "stateChanged res = terminated res" .
    have "escalate_branch opts pf interval tier1 a s u st =
        (if terminated res then (Inr (), clear_escalation (?s2\<lparr>state := Zombie\<rparr>), True, st3)
         else (Inr (), ?s2, ?u2, st3))"
      unfolding escalate_branch_def rs' using ex Inr sc by simp
    moreover have "escalate_outcome ans (root opts) interval tier1 s u =
        (if terminated res then (Inr (), clear_escalation (?s2\<lparr>state := Zombie\<rparr>), True)
         else (Inr (), ?s2, ?u2))"
      unfolding escalate_outcome_def Let_def ar using Inr by simp
    ultimately show ?thesis by simp
  qed
qed

lemma handle_outcome_agrees:
  assumes "\<forall>w. answers_of opts pf w = ans"
  shows "outcome (handle_action opts pf interval tier1 check a s u st) =
           handle_outcome ans (root opts) interval tier1 check s u"
proof (cases "action check")
  case ActNone
  then show ?thesis by (simp add: handle_action_def handle_outcome_def)
next
  case Escalate
  then show ?thesis
    by (simp add: handle_action_def handle_outcome_def escalate_outcome_agrees[OF assms])
next
  case Investigate
  then show ?thesis by (simp add: handle_action_def handle_outcome_def)
next
  case Terminate
  then show ?thesis by (simp add: handle_action_def handle_outcome_def)
qed


lemma apply_check_agrees:
  assumes "\<forall>w. answers_of opts pf w = ans"
  shows "outcome (apply_check opts pf check a s u st) =
     (let newState = transitionState pf (state s) check;
          s1 = (if newState \<noteq> state s then s\<lparr>state := newState\<rparr> else s);
          u1 = (if newState \<noteq> state s then True else u)
      in (case observer_is ans check of
            Inl e \<Rightarrow> (Inl e, s1, u1)
          | Inr _ \<Rightarrow>
              handle_outcome ans (root opts)
                (case nudgeIntervalMs opts of None \<Rightarrow> 60000 | Some i \<Rightarrow> i)
                (case tier1Enabled opts of None \<Rightarrow> False | Some b \<Rightarrow> b)
                check s1 u1))"
proof (cases "onHealthCheck opts")
  case None
  with fixed_answers(5)[OF assms None, of check] show ?thesis
    by (simp add: apply_check_def Let_def handle_outcome_agrees[OF assms])
next
  case (Some callback)
  obtain ro w3 where cb: "callback check (world st) = (ro, w3)"
    by (cases "callback check (world st)") auto
  with fixed_answers(4)[OF assms Some, of check "world st"]
  have ro: "observer_is ans check = ro" by simp
  show ?thesis
  proof (cases ro)
    case (Inl e)
    with Some cb ro show ?thesis
      by (simp add: apply_check_def Let_def perform_def)
  next
    case (Inr x)
    with Some cb ro show ?thesis
      by (simp add: apply_check_def Let_def perform_def handle_outcome_agrees[OF assms])
  qed
qed

lemma body_outcome_agrees:
  assumes "\<forall>w. answers_of opts pf w = ans"
  shows "outcome (loop_body opts pf s u st) = body_outcome opts pf ans s u"
proof (cases "state s = Completed")
  case True
  then show ?thesis by (simp add: loop_body_def body_outcome_def)
next
  case False
  let ?th = "\<lparr>staleMs = staleThresholdMs opts, zombieMs = zombieThresholdMs opts\<rparr>"
  obtain ra w1 where probe: "tmux_isSessionAlive opts (tmuxSession s) (world st) = (ra, w1)"
    by (cases "tmux_isSessionAlive opts (tmuxSession s) (world st)") auto
  with fixed_answers(2)[OF assms, of "tmuxSession s" "world st"]
  have ra: "alive_is ans (tmuxSession s) = ra" by simp
  show ?thesis
  proof (cases ra)
    case (Inl e)
    with False probe ra show ?thesis
      by (simp add: loop_body_def body_outcome_def perform_def)
  next
    case (Inr alive)
    obtain check w2 where ev: "evaluateHealth pf s alive ?th w1 = (check, w2)"
      by (cases "evaluateHealth pf s alive ?th w1") auto
    with fixed_answers(6)[OF assms, of s alive ?th w1]
    have check: "check_is ans s alive ?th = check" by simp
    from Inr probe
    have probe': "tmux_isSessionAlive opts (tmuxSession s) (world st) = (Inr alive, w1)"
      by simp
    show ?thesis
      unfolding loop_body_answered[OF False probe' ev] apply_check_agrees[OF assms]
      using False ra Inr check
      by (simp add: body_outcome_def)
  qed
qed

lemma loop_outcome_agrees:
  assumes "\<forall>w. answers_of opts pf w = ans"
  shows "outcome (session_loop opts pf ss u st) = loop_outcome opts pf ans ss u"
proof (induction ss arbitrary: u st)
  case Nil
  show ?case by simp
next
  case (Cons s ss)
  obtain r1 s1 u1 st1 where body: "loop_body opts pf s u st = (r1, s1, u1, st1)"
    by (cases "loop_body opts pf s u st") auto
  with body_outcome_agrees[OF assms, of s u st]
  have bo: "body_outcome opts pf ans s u = (r1, s1, u1)" by simp
  show ?case
  proof (cases r1)
    case (Inl e)
    with body bo show ?thesis by simp
  next
    case (Inr x)
    obtain r2 ss2 u2 st2 where rest: "session_loop opts pf ss u1 st1 = (r2, ss2, u2, st2)"
      by (cases "session_loop opts pf ss u1 st1") auto
    with Cons.IH[of u1 st1] have "loop_outcome opts pf ans ss u1 = (r2, ss2, u2)" by simp
    with Inr body bo rest show ?thesis by simp
  qed
qed

section \<open>A second pass under the same answers\<close>

lemma raise_level_settled: "\<not> raise_due i now (raise_level i now s)"
  by (cases "js_floor_div (stalledMs_at now s) i")
     (auto simp: raise_level_def raise_due_def expectedLevel_def stalledMs_at_def)

lemma raise_level_idem: "raise_level i now (raise_level i now s) = raise_level i now s"
  using raise_level_settled[of i now s]
  by (simp add: raise_level_def[of i now "raise_level i now s"])

lemma raise_level_fields [simp]:
  "stalledSince (raise_level i now s) = stalledSince s"
  "state (raise_level i now s) = state s"
  "lastActivity (raise_level i now s) = lastActivity s"
  "agentName (raise_level i now s) = agentName s"
  "tmuxSession (raise_level i now s) = tmuxSession s"
  by (simp_all add: raise_level_def)

lemma stall_started_fields [simp]:
  "stalledSince (stall_started now s) \<noteq> None"
  "state (stall_started now s) = state s"
  "lastActivity (stall_started now s) = lastActivity s"
  "agentName (stall_started now s) = agentName s"
  "tmuxSession (stall_started now s) = tmuxSession s"
  by (simp_all add: stall_started_def start_stall_def)

lemma stall_started_again: "stalledSince s \<noteq> None \<Longrightarrow> stall_started now s = s"
  by (auto simp: stall_started_def)

text \<open>A session that the escalation left running is left as it is by a second one.\<close>

lemma escalate_outcome_settled:
  assumes "escalate_outcome ans rd i t s u = (Inr (), s', u')" and "state s' \<noteq> Zombie"
  shows "escalate_outcome ans rd i t s' u2 = (Inr (), s', u2)"
proof -
  let ?s2 = "raise_level i (now_is ans) (stall_started (now_is ans) s)"
  obtain res where res: "action_outcome ans rd t ?s2 = Inr res"
    using assms(1)
    by (cases "action_outcome ans rd t ?s2") (auto simp: escalate_outcome_def Let_def)
  with assms have nt: "\<not> terminated res" and s': "s' = ?s2"
    by (auto simp: escalate_outcome_def Let_def clear_escalation_def split: if_splits)
  have again: "stall_started (now_is ans) ?s2 = ?s2"
    by (rule stall_started_again) simp
  show ?thesis
    unfolding s' escalate_outcome_def Let_def again raise_level_idem
    using res nt raise_level_settled[of i "now_is ans" "stall_started (now_is ans) s"]
    by simp
qed

lemma escalate_outcome_state:
  assumes "escalate_outcome ans rd i t s u = (r, s', u')"
  shows "(state s' = state s \<and> lastActivity s' = lastActivity s \<and> tmuxSession s' = tmuxSession s) \<or>
         (state s' = Zombie \<and> stalledSince s' = None \<and> tmuxSession s' = tmuxSession s)"
  using assms
  by (auto simp: escalate_outcome_def Let_def clear_escalation_def split: sum.splits if_splits)

lemma health_policy_cong:
  "state s' = state s \<Longrightarrow> lastActivity s' = lastActivity s \<Longrightarrow>
     health_policy s' a th now = health_policy s a th now"
  by (simp add: health_policy_def)

lemma health_policy_zombie:
  "state s = Zombie \<Longrightarrow> health_policy s a th now = (if a then Investigate else ActNone)"
  by (simp add: health_policy_def)

lemma health_policy_not_zombie:
  "health_policy s a th now = Terminate \<or> health_policy s a th now = Escalate \<Longrightarrow>
     state s \<noteq> Zombie"
  by (auto simp: health_policy_def split: if_splits)


lemma handle_outcome_idle:
  assumes "action c \<noteq> Terminate" and "action c \<noteq> Escalate" and "stalledSince s = None"
  shows "handle_outcome ans rd i t c s u = (Inr (), s, u)"
  using assms by (cases "action c") (simp_all add: handle_outcome_def)

text \<open>The body after the probe has answered, with the policy of the specification.\<close>

lemma body_outcome_answered:
  assumes "\<forall>cur c. transitionState pf cur c = transition_policy cur (action c)"
    and "state s \<noteq> Completed" and "alive_is ans (tmuxSession s) = Inr a"
    and "check_is ans s a \<lparr>staleMs = staleThresholdMs opts, zombieMs = zombieThresholdMs opts\<rparr> = c"
  shows "body_outcome opts pf ans s u =
     (case observer_is ans c of
        Inl e \<Rightarrow> (Inl e, if action c = Terminate \<and> state s \<noteq> Zombie then s\<lparr>state := Zombie\<rparr> else s,
                  if action c = Terminate \<and> state s \<noteq> Zombie then True else u)
      | Inr _ \<Rightarrow>
          handle_outcome ans (root opts)
            (case nudgeIntervalMs opts of None \<Rightarrow> 60000 | Some i \<Rightarrow> i)
            (case tier1Enabled opts of None \<Rightarrow> False | Some b \<Rightarrow> b)
            c (if action c = Terminate \<and> state s \<noteq> Zombie then s\<lparr>state := Zombie\<rparr> else s)
            (if action c = Terminate \<and> state s \<noteq> Zombie then True else u))"
  using assms(2-4)
  by (auto simp: body_outcome_def Let_def assms(1) transition_policy_def split: sum.splits)


lemma health_policy_investigate:
  "health_policy s a th now = Investigate \<Longrightarrow> state s = Zombie"
  by (auto simp: health_policy_def split: if_splits)

text \<open>
  A record that one pass of the body has produced is left as it is by a second pass
  under the same answers, unless the second pass ends with an exception.
\<close>

lemma body_outcome_settled:
  assumes trans: "\<forall>cur c. transitionState pf cur c = transition_policy cur (action c)"
    and pol: "\<forall>s a th. action (check_is ans s a th) = health_policy s a th (now_is ans)"
    and run1: "body_outcome opts pf ans s u = (Inr (), s', u')"
    and run2: "fst (body_outcome opts pf ans s' u2) = Inr ()"
  shows "body_outcome opts pf ans s' u2 = (Inr (), s', u2)"
proof (cases "state s = Completed")
  case True
  with run1 have "s' = s" by (simp add: body_outcome_def)
  with True show ?thesis by (simp add: body_outcome_def)
next
  case False
  let ?th = "\<lparr>staleMs = staleThresholdMs opts, zombieMs = zombieThresholdMs opts\<rparr>"
  let ?rd = "root opts"
  let ?i = "case nudgeIntervalMs opts of None \<Rightarrow> 60000 | Some i \<Rightarrow> i"
  let ?t = "case tier1Enabled opts of None \<Rightarrow> False | Some b \<Rightarrow> b"
  obtain a where alive: "alive_is ans (tmuxSession s) = Inr a"
    using run1 False by (cases "alive_is ans (tmuxSession s)") (auto simp: body_outcome_def)
  define c where "c = check_is ans s a ?th"
  define s1 where "s1 = (if action c = Terminate \<and> state s \<noteq> Zombie then s\<lparr>state := Zombie\<rparr> else s)"
  define u1 where "u1 = (if action c = Terminate \<and> state s \<noteq> Zombie then True else u)"
  note b1 = body_outcome_answered[OF trans False alive c_def[symmetric], of u,
      folded s1_def u1_def]
  from run1 b1 have h1: "handle_outcome ans ?rd ?i ?t c s1 u1 = (Inr (), s', u')"
    by (cases "observer_is ans c") auto
  from pol have act: "action c = health_policy s a ?th (now_is ans)"
    by (simp add: c_def)
  have shape: "tmuxSession s' = tmuxSession s \<and>
      ((state s' = Zombie \<and> stalledSince s' = None) \<or>
       (state s' = state s \<and> lastActivity s' = lastActivity s \<and>
        (action c = Escalate \<and> escalate_outcome ans ?rd ?i ?t s u = (Inr (), s', u') \<or>
         action c = Investigate \<and> s' = s \<or>
         action c = ActNone \<and> stalledSince s' = None)))"
  proof (cases "action c")
    case ActNone
    with h1 show ?thesis
      by (auto simp: handle_outcome_def s1_def split: if_splits)
  next
    case Escalate
    with h1 have e: "escalate_outcome ans ?rd ?i ?t s u = (Inr (), s', u')"
      by (simp add: handle_outcome_def s1_def u1_def)
    from escalate_outcome_state[OF e] e Escalate show ?thesis by auto
  next
    case Investigate
    with h1 show ?thesis
      by (simp add: handle_outcome_def s1_def)
  next
    case Terminate
    with h1 show ?thesis
      by (auto simp: handle_outcome_def s1_def clear_escalation_def)
  qed
  from shape False have nc: "state s' \<noteq> Completed" by auto
  from shape alive have alive': "alive_is ans (tmuxSession s') = Inr a" by simp
  define c' where "c' = check_is ans s' a ?th"
  from pol have act': "action c' = health_policy s' a ?th (now_is ans)"
    by (simp add: c'_def)
  define s1' where
    "s1' = (if action c' = Terminate \<and> state s' \<noteq> Zombie then s'\<lparr>state := Zombie\<rparr> else s')"
  define u1' where "u1' = (if action c' = Terminate \<and> state s' \<noteq> Zombie then True else u2)"
  note b2 = body_outcome_answered[OF trans nc alive' c'_def[symmetric], of u2,
      folded s1'_def u1'_def]
  from run2 b2 have b2': "body_outcome opts pf ans s' u2 = handle_outcome ans ?rd ?i ?t c' s1' u1'"
    by (cases "observer_is ans c'") auto
  from shape show ?thesis
  proof (elim conjE disjE)
    assume z: "state s' = Zombie" "stalledSince s' = None"
    with act' have "action c' \<noteq> Terminate" "action c' \<noteq> Escalate"
      by (simp_all add: health_policy_zombie)
    with z show ?thesis
      unfolding b2' by (simp add: s1'_def u1'_def handle_outcome_idle)
  next
    assume same: "state s' = state s" "lastActivity s' = lastActivity s"
      and e: "action c = Escalate" "escalate_outcome ans ?rd ?i ?t s u = (Inr (), s', u')"
    from act' health_policy_cong[OF same] act e(1) have esc: "action c' = Escalate" by simp
    from e(1) act health_policy_not_zombie[of s a ?th "now_is ans"] same
    have nz: "state s' \<noteq> Zombie" by simp
    from esc show ?thesis
      unfolding b2'
      by (simp add: s1'_def u1'_def handle_outcome_def escalate_outcome_settled[OF e(2) nz])
  next
    assume same: "state s' = state s" "lastActivity s' = lastActivity s"
      and i: "action c = Investigate" "s' = s"
    then have "c' = c" by (simp add: c'_def c_def)
    with i show ?thesis
      unfolding b2' by (simp add: s1'_def u1'_def handle_outcome_def)
  next
    assume same: "state s' = state s" "lastActivity s' = lastActivity s"
      and n: "action c = ActNone" "stalledSince s' = None"
    from act' health_policy_cong[OF same] act n(1) have "action c' = ActNone" by simp
    with n show ?thesis
      unfolding b2' by (simp add: s1'_def u1'_def handle_outcome_idle)
  qed
qed

lemma loop_outcome_settled:
  assumes trans: "\<forall>cur c. transitionState pf cur c = transition_policy cur (action c)"
    and pol: "\<forall>s a th. action (check_is ans s a th) = health_policy s a th (now_is ans)"
  shows "loop_outcome opts pf ans ss u = (Inr (), ss', u') \<Longrightarrow>
         fst (loop_outcome opts pf ans ss' u2) = Inr () \<Longrightarrow>
         loop_outcome opts pf ans ss' u2 = (Inr (), ss', u2)"
proof (induction ss arbitrary: u ss' u' u2)
  case Nil
  then show ?case by simp
next
  case (Cons s ss)
  obtain r1 s1 u1 where body: "body_outcome opts pf ans s u = (r1, s1, u1)"
    by (cases "body_outcome opts pf ans s u") auto
  with Cons.prems(1) have r1: "r1 = Inr ()"
    by (cases r1) (auto split: prod.splits)
  obtain r2 rest u3 where rest: "loop_outcome opts pf ans ss u1 = (r2, rest, u3)"
    by (cases "loop_outcome opts pf ans ss u1") auto
  with Cons.prems(1) body r1 have ss': "ss' = s1 # rest" and r2: "r2 = Inr ()" and "u3 = u'"
    by auto
  from Cons.prems(2) ss' have b2: "fst (body_outcome opts pf ans s1 u2) = Inr ()"
    by (cases "body_outcome opts pf ans s1 u2") (auto split: sum.splits prod.splits)
  from body_outcome_settled[OF trans pol body[unfolded r1] b2]
  have b2': "body_outcome opts pf ans s1 u2 = (Inr (), s1, u2)" .
  from Cons.prems(2) ss' b2' have "fst (loop_outcome opts pf ans rest u2) = Inr ()"
    by (cases "loop_outcome opts pf ans rest u2") auto
  from Cons.IH[OF rest[unfolded r2] this] b2' ss' show ?case by simp
qed

section \<open>Evaluating concrete runs\<close>

lemmas tick_defs =
  loop_body_def apply_check_def Let_def perform_def emit_def handle_action_def
  escalate_branch_def raise_step_def
  now_ms_def start_stall_def raise_level_def raise_due_def stalledMs_at_def expectedLevel_def
  js_floor_div_def MAX_ESCALATION_LEVEL_def executeEscalationAction_def kill_if_alive_def
  nudge_swallowed_def clear_escalation_def health_policy_def transition_policy_def

lemmas scenario_defs =
  makeSession_def otherSession_def stalledSession_def scripted_options_def
  scripted_platform_def on_disk_def triage_down_def completedSession_def watching_def
  triage_says_def legacyRecord_def legacy_disk_def escalatedSession_def fickle_triage_def
  all_gone_def

lemma backfill_stringify [simp]: "backfill (stringify s) = s"
  by (simp add: backfill_def stringify_def SessionBase.defs AgentSession.defs RawSession.defs)

lemma loadSessions_saved [simp]: "loadSessions (JsonArray (map stringify ss)) = Inr ss"
  by (simp add: loadSessions_def comp_def)

lemma loadSessions_on_disk [simp]: "loadSessions (sessionsFile (on_disk ss)) = Inr ss"
  by (simp add: on_disk_def)

section \<open>An exception that leaves the loop\<close>

lemma triage_down_loop:
  "session_loop triage_down (scripted_platform 90000) [makeSession, stalledSession] False
     (on_disk [makeSession, stalledSession]) =
   (Inl ''triage unavailable'',
    [makeSession\<lparr>stalledSince := Some 90000\<rparr>, stalledSession\<lparr>escalationLevel := 2\<rparr>],
    True,
    (on_disk [makeSession, stalledSession])
      \<lparr>world := 1,
       trace := [Call ''session-123-test-agent'' (IsSessionAlive ''overstory-test-agent''),
                 Call ''session-456-other-agent'' (IsSessionAlive ''overstory-other-agent''),
                 Call ''session-456-other-agent''
                   (Triage \<lparr>req_agentName = ''other-agent'', req_root = ''/project'',
                            req_lastActivity = 0\<rparr>)]\<rparr>)"
  by (simp add: scenario_defs tick_defs)

text \<open>
  Claim C9. When an exception escapes the loop over the sessions, \<open>runDaemonTick\<close> ends
  with that exception in the state the loop left: the registry file is as it was before
  the tick and no write is logged, whatever the loop had changed in the records in memory
  and whatever the flag \<open>updated\<close> says.
\<close>

theorem tick_exception_discards_mutations:
  assumes "loadSessions (sessionsFile st) = Inr sessions"
    and "session_loop opts pf sessions False st = (Inl e, sessions', updated, st')"
  shows "runDaemonTick opts pf st = (Inl e, st') \<and>
         sessionsFile st' = sessionsFile st \<and>
         writes (trace st') = writes (trace st)"
  using assms session_loop_calls_only[OF assms(2)]
  by (simp add: runDaemonTick_def calls_only_writes calls_only_file)

text \<open>
  The first session gets its stall episode started in memory, then the triage of the
  second one throws: the tick ends with the exception and the file as it was.
\<close>

theorem tick_exception_discards_mutations_witness:
  "loadSessions (sessionsFile (on_disk [makeSession, stalledSession])) =
     Inr [makeSession, stalledSession] \<and>
   fst (snd (session_loop triage_down (scripted_platform 90000) [makeSession, stalledSession]
     False (on_disk [makeSession, stalledSession]))) =
     [makeSession\<lparr>stalledSince := Some 90000\<rparr>, stalledSession\<lparr>escalationLevel := 2\<rparr>] \<and>
   fst (runDaemonTick triage_down (scripted_platform 90000)
     (on_disk [makeSession, stalledSession])) = Inl ''triage unavailable'' \<and>
   sessionsFile (snd (runDaemonTick triage_down (scripted_platform 90000)
     (on_disk [makeSession, stalledSession]))) =
     sessionsFile (on_disk [makeSession, stalledSession]) \<and>
   writes (trace (snd (runDaemonTick triage_down (scripted_platform 90000)
     (on_disk [makeSession, stalledSession])))) = []"
  using tick_exception_discards_mutations[OF loadSessions_on_disk triage_down_loop]
  unfolding triage_down_loop
  by (simp add: writes_def)

section \<open>The observer and the sessions a tick skips\<close>

lemma watching_loop:
  "session_loop watching (scripted_platform 90000) [completedSession, makeSession, stalledSession]
     False (on_disk [completedSession, makeSession, stalledSession]) =
   (Inr (),
    [completedSession, makeSession\<lparr>stalledSince := Some 90000\<rparr>,
     stalledSession\<lparr>escalationLevel := 2\<rparr>],
    True,
    (on_disk [completedSession, makeSession, stalledSession])
      \<lparr>trace := [Call ''session-123-test-agent'' (IsSessionAlive ''overstory-test-agent''),
                 Call ''session-123-test-agent''
                   (OnHealthCheck \<lparr>classification = Working, action = Escalate\<rparr>),
                 Call ''session-456-other-agent'' (IsSessionAlive ''overstory-other-agent''),
                 Call ''session-456-other-agent''
                   (OnHealthCheck \<lparr>classification = Working, action = Escalate\<rparr>)]\<rparr>)"
  by (simp add: scenario_defs tick_defs)



text \<open>
  Claim C8. On a session whose state is \<open>completed\<close> the loop body returns at once: the
  record, the flag and the whole state (world and log) are as before, so there is no
  probe, no observer call and no change. Over a whole loop, the records that were
  \<open>completed\<close> are unchanged at their positions, and the probes and observer calls
  logged are those of an initial part of the sessions that are not \<open>completed\<close>.
\<close>

theorem completed_session_skipped:
  "(state s = Completed \<longrightarrow> loop_body opts pf s u st = (Inr (), s, u, st)) \<and>
   (session_loop opts pf ss u st = (r, ss', u', st') \<longrightarrow>
      length ss' = length ss \<and>
      (\<forall>i<length ss. state (ss ! i) = Completed \<longrightarrow> ss' ! i = ss ! i) \<and>
      (\<exists>k. probed (trace st') = probed (trace st) @ map id' (take k (monitored ss))) \<and>
      (\<exists>k. observed (trace st') = observed (trace st) @ map id' (take k (monitored ss))))"
proof (intro conjI impI)
  assume "state s = Completed"
  then show "loop_body opts pf s u st = (Inr (), s, u, st)" by (rule loop_body_completed)
next
  assume loop: "session_loop opts pf ss u st = (r, ss', u', st')"
  show "length ss' = length ss" by (rule session_loop_length[OF loop])
  show "\<forall>i<length ss. state (ss ! i) = Completed \<longrightarrow> ss' ! i = ss ! i"
    using session_loop_completed_kept[OF loop] by blast
  show "\<exists>k. probed (trace st') = probed (trace st) @ map id' (take k (monitored ss))"
    using session_loop_probed[OF loop] by blast
  show "\<exists>k. observed (trace st') = observed (trace st) @ map id' (take k (monitored ss))"
  proof (cases "onHealthCheck opts")
    case None
    from session_loop_unobserved[OF loop None]
    have "observed (trace st') = observed (trace st) @ map id' (take 0 (monitored ss))" by simp
    then show ?thesis by blast
  next
    case (Some f)
    then have "onHealthCheck opts \<noteq> None" by simp
    from session_loop_observed[OF loop this] show ?thesis by blast
  qed
qed

theorem completed_session_skipped_witness:
  "state completedSession = Completed \<and>
   loop_body watching (scripted_platform 90000) completedSession False
     (on_disk [completedSession, makeSession, stalledSession]) =
     (Inr (), completedSession, False, on_disk [completedSession, makeSession, stalledSession]) \<and>
   (let ss' = fst (snd (session_loop watching (scripted_platform 90000)
        [completedSession, makeSession, stalledSession] False
        (on_disk [completedSession, makeSession, stalledSession])))
    in length ss' = 3 \<and> ss' ! 0 = completedSession)"
proof -
  let ?ss = "[completedSession, makeSession, stalledSession]"
  have c: "state completedSession = Completed"
    by (simp add: completedSession_def)
  obtain ss' st'
    where loop: "session_loop watching (scripted_platform 90000) ?ss False (on_disk ?ss) =
                   (Inr (), ss', True, st')"
    using watching_loop by blast
  from completed_session_skipped[of completedSession watching "scripted_platform 90000" False
      "on_disk ?ss" ?ss "Inr ()" ss' True st'] c loop
  have "loop_body watching (scripted_platform 90000) completedSession False (on_disk ?ss) =
          (Inr (), completedSession, False, on_disk ?ss)"
    and "length ss' = length ?ss"
    and "\<forall>i<length ?ss. state (?ss ! i) = Completed \<longrightarrow> ss' ! i = ?ss ! i"
    by blast+
  with c loop show ?thesis
    by (auto simp: Let_def)
qed

section \<open>Termination\<close>



text \<open>
  Claim C5. Under an \<open>escalate\<close> verdict, let the raise step leave the session at
  level 3 or beyond, or at level 2 with the triage enabled and answering \<open>terminate\<close>.
  Then the branch returns normally, whatever the kill does: the record has the state
  \<open>zombie\<close>, the level 0 and \<open>stalledSince\<close> null, the flag \<open>updated\<close> is set, and one
  kill of the backing session is logged exactly when the probe had answered alive (the
  argument \<open>alive\<close>, which the loop body takes from the probe).
\<close>

theorem escalation_terminates:
  assumes "action check = Escalate"
    and "raise_step pf interval s u st = (s2, u2, st2)"
    and "3 \<le> escalationLevel s2 \<or>
         (escalationLevel s2 = 2 \<and> tier1 \<and>
          fst (triage opts \<lparr>req_agentName = agentName s2, req_root = root opts,
                 req_lastActivity = lastActivity s2\<rparr> (world st2)) = Inr TriageTerminate)"
  shows "\<exists>st'. handle_action opts pf interval tier1 check alive s u st =
           (Inr (), s\<lparr>state := Zombie, escalationLevel := 0, stalledSince := None\<rparr>, True, st') \<and>
         kill_calls (trace st') = kill_calls (trace st) @ (if alive then [tmuxSession s] else [])"
proof -
  note shape = raise_step_shape(1)[OF assms(2), where z=Zombie and l=0 and t=None]
    raise_step_shape(2-8)[OF assms(2)]
  from assms(3) show ?thesis
    unfolding handle_action_def escalate_branch_def executeEscalationAction_def
    by (auto simp: assms(1,2) shape clear_escalation_def perform_def emit_def
          split: prod.splits sum.splits)
qed


theorem escalation_terminates_witness:
  "fst (tmux_killSession (triage_says TriageTerminate) ''overstory-other-agent'' 0) =
     Inl ''no such session'' \<and>
   raise_step (scripted_platform 90000) 60000 stalledSession False (on_disk [stalledSession]) =
     (stalledSession\<lparr>escalationLevel := 2\<rparr>, True, on_disk [stalledSession]) \<and>
   fst (handle_action (triage_says TriageTerminate) (scripted_platform 90000) 60000 True
          \<lparr>classification = Working, action = Escalate\<rparr> True stalledSession False
          (on_disk [stalledSession])) = Inr () \<and>
   fst (snd (handle_action (triage_says TriageTerminate) (scripted_platform 90000) 60000 True
          \<lparr>classification = Working, action = Escalate\<rparr> True stalledSession False
          (on_disk [stalledSession]))) =
     stalledSession\<lparr>state := Zombie, escalationLevel := 0, stalledSince := None\<rparr> \<and>
   kill_calls (trace (snd (snd (snd (handle_action (triage_says TriageTerminate)
          (scripted_platform 90000) 60000 True
          \<lparr>classification = Working, action = Escalate\<rparr> True stalledSession False
          (on_disk [stalledSession])))))) = [''overstory-other-agent'']"
proof -
  let ?check = "\<lparr>classification = Working, action = Escalate\<rparr>"
  have a: "action ?check = Escalate"
    by simp
  have b: "raise_step (scripted_platform 90000) 60000 stalledSession False
             (on_disk [stalledSession]) =
           (stalledSession\<lparr>escalationLevel := 2\<rparr>, True, on_disk [stalledSession])"
    by (simp add: scenario_defs tick_defs)
  have c: "3 \<le> escalationLevel (stalledSession\<lparr>escalationLevel := 2\<rparr>) \<or>
           (escalationLevel (stalledSession\<lparr>escalationLevel := 2\<rparr>) = 2 \<and> True \<and>
            fst (triage (triage_says TriageTerminate)
                   \<lparr>req_agentName = agentName (stalledSession\<lparr>escalationLevel := 2\<rparr>),
                    req_root = root (triage_says TriageTerminate),
                    req_lastActivity = lastActivity (stalledSession\<lparr>escalationLevel := 2\<rparr>)\<rparr>
                   (world (on_disk [stalledSession]))) = Inr TriageTerminate)"
    by (simp add: scenario_defs)
  from escalation_terminates[OF a b c, of True] b
  show ?thesis
    by (auto simp: scenario_defs)
qed

section \<open>The escalation level as a function of the elapsed time\<close>




text \<open>The raise step of a tick is \<open>raise_level\<close> at the reading of the clock.\<close>

lemma raise_step_session:
  assumes "raise_step pf interval s u st = (s2, u2, st2)"
  shows "stalledSince s \<noteq> None \<Longrightarrow> s2 = raise_level interval (fst (clock pf (world st))) s"
    and "stalledSince s = None \<Longrightarrow>
           s2 = raise_level interval (fst (clock pf (snd (clock pf (world st)))))
                  (start_stall (fst (clock pf (world st))) s)"
  using assms
  by (auto simp: raise_step_def now_ms_def split: prod.splits)

lemma escalate_branch_session:
  assumes "escalate_branch opts pf interval tier1 alive s u st = (r, s', u', st')"
    and "raise_step pf interval s u st = (s2, u2, st2)"
  shows "s' = s2 \<or> s' = s2\<lparr>state := Zombie, escalationLevel := 0, stalledSince := None\<rparr>"
  using assms
  by (auto simp: escalate_branch_def clear_escalation_def split: prod.splits sum.splits if_splits)



section \<open>The two escalation fields\<close>

lemma raise_step_stalled:
  "raise_step pf i s u st = (s2, u2, st2) \<Longrightarrow> stalledSince s2 \<noteq> None"
  by (auto simp: raise_step_def raise_level_def start_stall_def split: if_splits prod.splits)

lemma escalate_branch_keeps_invariant:
  "escalate_branch opts pf i t a s u st = (r, s', u', st') \<Longrightarrow> level_zero_unless_stalled s'"
  by (auto simp: escalate_branch_def clear_escalation_def level_zero_unless_stalled_def
        split: prod.splits sum.splits if_splits dest: raise_step_stalled)

lemma handle_action_keeps_invariant:
  "handle_action opts pf i t c a s u st = (r, s', u', st') \<Longrightarrow>
     level_zero_unless_stalled s \<Longrightarrow> level_zero_unless_stalled s'"
  by (auto simp: handle_action_def clear_escalation_def
        split: if_splits dest: escalate_branch_keeps_invariant)
     (auto simp: level_zero_unless_stalled_def)

lemma loop_body_keeps_invariant:
  "loop_body opts pf s u st = (r, s', u', st') \<Longrightarrow>
     level_zero_unless_stalled s \<Longrightarrow> level_zero_unless_stalled s'"
  by (auto simp: loop_body_def apply_check_def Let_def
        split: if_splits prod.splits sum.splits option.splits
        dest!: handle_action_keeps_invariant)
     (auto simp: level_zero_unless_stalled_def)

lemma session_loop_keeps_invariant:
  "session_loop opts pf ss u st = (r, ss', u', st') \<Longrightarrow>
     list_all level_zero_unless_stalled ss \<Longrightarrow> list_all level_zero_unless_stalled ss'"
proof (induction ss arbitrary: u st r ss' u' st')
  case Nil
  then show ?case by simp
next
  case (Cons s ss)
  then show ?case
    by (auto split: prod.splits sum.splits dest: loop_body_keeps_invariant)
qed

lemma registry_saved [simp]: "registry (saveSessions ss st) = ss"
  by (simp add: registry_def)

lemma registry_loaded: "loadSessions (sessionsFile st) = Inr ss \<Longrightarrow> registry st = ss"
  by (simp add: registry_def)

lemma registry_calls_only: "calls_only st st' \<Longrightarrow> registry st' = registry st"
  by (simp add: registry_def calls_only_def)

lemma first_stalled_tick:
  "runDaemonTick watching (scripted_platform 90000) (on_disk [makeSession]) =
     (Inr (),
      saveSessions [makeSession\<lparr>stalledSince := Some 90000\<rparr>]
        ((on_disk [makeSession])
           \<lparr>trace := [Call ''session-123-test-agent'' (IsSessionAlive ''overstory-test-agent''),
                      Call ''session-123-test-agent''
                        (OnHealthCheck \<lparr>classification = Working, action = Escalate\<rparr>)]\<rparr>))"
proof -
  have "session_loop watching (scripted_platform 90000) [makeSession] False
      (on_disk [makeSession]) =
     (Inr (), [makeSession\<lparr>stalledSince := Some 90000\<rparr>], True,
        (on_disk [makeSession])
           \<lparr>trace := [Call ''session-123-test-agent'' (IsSessionAlive ''overstory-test-agent''),
                      Call ''session-123-test-agent''
                        (OnHealthCheck \<lparr>classification = Working, action = Escalate\<rparr>)]\<rparr>)"
    by (simp add: scenario_defs tick_defs)
  from runDaemonTick_loop[OF loadSessions_on_disk this] show ?thesis by simp
qed

text \<open>
  Claim C3, as stated, fails: the first tick that finds a session stalled sets
  \<open>stalledSince\<close> and leaves the level at 0, and the tick writes that record.
\<close>

theorem stall_fields_counterexample:
  "registry (on_disk [makeSession]) = [makeSession] \<and>
   escalationLevel makeSession = 0 \<and> stalledSince makeSession = None \<and>
   registry (snd (runDaemonTick watching (scripted_platform 90000) (on_disk [makeSession]))) =
     [makeSession\<lparr>stalledSince := Some 90000\<rparr>] \<and>
   escalationLevel (makeSession\<lparr>stalledSince := Some 90000\<rparr>) = 0 \<and>
   stalledSince (makeSession\<lparr>stalledSince := Some 90000\<rparr>) \<noteq> None"
  by (simp add: first_stalled_tick) (simp add: registry_def makeSession_def)

text \<open>
  Claim C3, amended. After a tick, every record of the registry whose \<open>stalledSince\<close> is
  null has the escalation level 0, provided this held of the records before the tick: the
  loop clears both fields together, and when it starts a stall episode it sets
  \<open>stalledSince\<close> and the level 0.
\<close>

theorem null_stall_has_level_zero:
  assumes "list_all level_zero_unless_stalled (registry st)"
  shows "list_all level_zero_unless_stalled (registry (snd (runDaemonTick opts pf st)))"
proof (cases "loadSessions (sessionsFile st)")
  case (Inl e)
  then show ?thesis using assms by (simp add: runDaemonTick_def)
next
  case (Inr sessions)
  obtain r sessions' updated st1
    where loop: "session_loop opts pf sessions False st = (r, sessions', updated, st1)"
    by (cases "session_loop opts pf sessions False st") auto
  from assms Inr have "list_all level_zero_unless_stalled sessions"
    by (simp add: registry_def)
  from session_loop_keeps_invariant[OF loop this]
  have inv: "list_all level_zero_unless_stalled sessions'" .
  from session_loop_calls_only[OF loop] have "registry st1 = registry st"
    by (rule registry_calls_only)
  with inv assms show ?thesis
    by (simp add: runDaemonTick_loop[OF Inr loop])
qed

theorem null_stall_has_level_zero_witness:
  "list_all level_zero_unless_stalled (registry (on_disk [makeSession])) \<and>
   list_all level_zero_unless_stalled
     (registry (snd (runDaemonTick watching (scripted_platform 90000) (on_disk [makeSession])))) \<and>
   registry (snd (runDaemonTick watching (scripted_platform 90000) (on_disk [makeSession]))) =
     [makeSession\<lparr>stalledSince := Some 90000\<rparr>]"
proof -
  have a: "list_all level_zero_unless_stalled (registry (on_disk [makeSession]))"
    by (simp add: registry_def level_zero_unless_stalled_def makeSession_def)
  from null_stall_has_level_zero[OF a, of watching "scripted_platform 90000"]
  have b: "list_all level_zero_unless_stalled
     (registry (snd (runDaemonTick watching (scripted_platform 90000) (on_disk [makeSession]))))" .
  have c: "registry (snd (runDaemonTick watching (scripted_platform 90000)
     (on_disk [makeSession]))) = [makeSession\<lparr>stalledSince := Some 90000\<rparr>]"
    by (simp add: first_stalled_tick)
  from a b c show ?thesis
    by blast
qed

section \<open>A failing triage\<close>

lemma triage_down_tick:
  "session_loop triage_down (scripted_platform 90000) [stalledSession, makeSession] False
     (on_disk [stalledSession, makeSession]) =
   (Inl ''triage unavailable'',
    [stalledSession\<lparr>escalationLevel := 2\<rparr>, makeSession],
    True,
    (on_disk [stalledSession, makeSession])
      \<lparr>world := 1,
       trace := [Call ''session-456-other-agent'' (IsSessionAlive ''overstory-other-agent''),
                 Call ''session-456-other-agent''
                   (Triage \<lparr>req_agentName = ''other-agent'', req_root = ''/project'',
                            req_lastActivity = 0\<rparr>)]\<rparr>)"
  by (simp add: scenario_defs tick_defs)

text \<open>
  Claim C1, as stated, fails: the triage of the first session throws, the tick ends with
  that exception, the second session is never probed and nothing is written.
\<close>

theorem triage_failure_counterexample:
  "fst (triage triage_down
          \<lparr>req_agentName = ''other-agent'', req_root = ''/project'', req_lastActivity = 0\<rparr> 0) =
     Inl ''triage unavailable'' \<and>
   fst (runDaemonTick triage_down (scripted_platform 90000)
          (on_disk [stalledSession, makeSession])) = Inl ''triage unavailable'' \<and>
   probed (trace (snd (runDaemonTick triage_down (scripted_platform 90000)
          (on_disk [stalledSession, makeSession])))) = [''session-456-other-agent''] \<and>
   sessionsFile (snd (runDaemonTick triage_down (scripted_platform 90000)
          (on_disk [stalledSession, makeSession]))) =
     sessionsFile (on_disk [stalledSession, makeSession])"
  by (simp add: runDaemonTick_loop[OF loadSessions_on_disk triage_down_tick])
     (simp add: triage_down_def scripted_options_def)

text \<open>
  Claim C1, amended. The call of the triage is not inside a \<open>try\<close>: at level 2 with the
  triage enabled, the exception it throws leaves \<open>executeEscalationAction\<close> and the
  branch of the loop body, with the session as the raise step left it; an exception that
  leaves the loop body ends the loop, and the sessions after it are not visited. What the
  kill and the nudge throw is swallowed where they are called: unless the triage call
  throws, the escalation action returns.
\<close>

theorem triage_failure_escapes:
  "(action check = Escalate \<and> raise_step pf interval s u st = (s2, u2, st2) \<and>
    escalationLevel s2 = 2 \<and> tier1 \<and>
    triage opts \<lparr>req_agentName = agentName s2, req_root = root opts,
                  req_lastActivity = lastActivity s2\<rparr> (world st2) = (Inl e, w') \<longrightarrow>
      handle_action opts pf interval tier1 check alive s u st =
        (Inl e, s2, u2,
         emit (Call (id' s2) (Triage \<lparr>req_agentName = agentName s2, req_root = root opts,
                                       req_lastActivity = lastActivity s2\<rparr>))
           (st2\<lparr>world := w'\<rparr>))) \<and>
   (loop_body opts pf s u st = (Inl e, s', u', st') \<longrightarrow>
      session_loop opts pf (s # rest) u st = (Inl e, s' # rest, u', st')) \<and>
   ((escalationLevel s = 2 \<and> tier1 \<longrightarrow>
       (\<exists>v. fst (triage opts \<lparr>req_agentName = agentName s, req_root = root opts,
                   req_lastActivity = lastActivity s\<rparr> (world st)) = Inr v)) \<longrightarrow>
      (\<exists>res. fst (executeEscalationAction opts s alive tier1 st) = Inr res))"
  by (auto simp: handle_action_def escalate_branch_def executeEscalationAction_def perform_def
        split: prod.splits sum.splits)

lemma triage_down_body:
  "loop_body triage_down (scripted_platform 90000) stalledSession False
     (on_disk [stalledSession, makeSession]) =
   (Inl ''triage unavailable'', stalledSession\<lparr>escalationLevel := 2\<rparr>, True,
    (on_disk [stalledSession, makeSession])
      \<lparr>world := 1,
       trace := [Call ''session-456-other-agent'' (IsSessionAlive ''overstory-other-agent''),
                 Call ''session-456-other-agent''
                   (Triage \<lparr>req_agentName = ''other-agent'', req_root = ''/project'',
                            req_lastActivity = 0\<rparr>)]\<rparr>)"
  by (simp add: scenario_defs tick_defs)

theorem triage_failure_escapes_witness:
  "raise_step (scripted_platform 90000) 60000 stalledSession False
     (on_disk [stalledSession, makeSession]) =
     (stalledSession\<lparr>escalationLevel := 2\<rparr>, True, on_disk [stalledSession, makeSession]) \<and>
   fst (handle_action triage_down (scripted_platform 90000) 60000 True
          \<lparr>classification = Working, action = Escalate\<rparr> True stalledSession False
          (on_disk [stalledSession, makeSession])) = Inl ''triage unavailable'' \<and>
   fst (loop_body triage_down (scripted_platform 90000) stalledSession False
          (on_disk [stalledSession, makeSession])) = Inl ''triage unavailable'' \<and>
   fst (session_loop triage_down (scripted_platform 90000) (stalledSession # [makeSession]) False
          (on_disk [stalledSession, makeSession])) = Inl ''triage unavailable'' \<and>
   fst (snd (session_loop triage_down (scripted_platform 90000) (stalledSession # [makeSession])
          False (on_disk [stalledSession, makeSession]))) =
     stalledSession\<lparr>escalationLevel := 2\<rparr> # [makeSession] \<and>
   fst (nudge (triage_says Retry) ''/project'' ''other-agent'' recovery_message True 0) =
     Inl ''send-keys failed'' \<and>
   fst (executeEscalationAction (triage_says Retry) (stalledSession\<lparr>escalationLevel := 2\<rparr>)
          True True (on_disk [stalledSession, makeSession])) =
     Inr \<lparr>terminated = False, stateChanged = False\<rparr>"
proof -
  let ?st = "on_disk [stalledSession, makeSession]"
  let ?s2 = "stalledSession\<lparr>escalationLevel := 2\<rparr>"
  let ?check = "\<lparr>classification = Working, action = Escalate\<rparr>"
  have a: "action ?check = Escalate"
    by simp
  have b: "raise_step (scripted_platform 90000) 60000 stalledSession False ?st = (?s2, True, ?st)"
    by (simp add: scenario_defs tick_defs)
  have c: "escalationLevel ?s2 = 2"
    by simp
  have d: "triage triage_down \<lparr>req_agentName = agentName ?s2, req_root = root triage_down,
             req_lastActivity = lastActivity ?s2\<rparr> (world ?st) = (Inl ''triage unavailable'', 1)"
    by (simp add: scenario_defs)
  from triage_failure_escapes[of ?check "scripted_platform 90000" 60000 stalledSession False ?st
      ?s2 True ?st True triage_down "''triage unavailable''" 1 True] a b c d
  have one: "fst (handle_action triage_down (scripted_platform 90000) 60000 True ?check True
               stalledSession False ?st) = Inl ''triage unavailable''"
    by simp
  from triage_failure_escapes[of _ "scripted_platform 90000" _ stalledSession False ?st
      _ _ _ _ triage_down "''triage unavailable''" _ _ ?s2 True _ "[makeSession]"]
    triage_down_body
  have two: "session_loop triage_down (scripted_platform 90000) (stalledSession # [makeSession])
               False ?st =
             (Inl ''triage unavailable'', ?s2 # [makeSession], True,
              snd (snd (snd (loop_body triage_down (scripted_platform 90000) stalledSession False
                ?st))))"
    by simp
  have e: "\<exists>v. fst (triage (triage_says Retry) \<lparr>req_agentName = agentName ?s2,
             req_root = root (triage_says Retry), req_lastActivity = lastActivity ?s2\<rparr>
             (world ?st)) = Inr v"
    by (simp add: scenario_defs)
  from triage_failure_escapes[of _ _ _ ?s2 _ ?st _ _ _ True "triage_says Retry" _ _ True] e
  have three: "\<exists>res. fst (executeEscalationAction (triage_says Retry) ?s2 True True ?st) = Inr res"
    by blast
  have four: "fst (executeEscalationAction (triage_says Retry) ?s2 True True ?st) =
                Inr \<lparr>terminated = False, stateChanged = False\<rparr>"
    using three by (simp add: scenario_defs tick_defs)
  show ?thesis
    using b one two four triage_down_body
    by (simp add: scenario_defs recovery_message_def)
qed

section \<open>Records of the registry that lack the escalation fields\<close>

lemma follows_spec_spares_zombies: "follows_spec pf now \<Longrightarrow> spares_zombies pf"
  by (simp add: follows_spec_def spares_zombies_def health_policy_def)

lemma scripted_platform_follows_spec: "follows_spec (scripted_platform now) now"
  by (simp add: follows_spec_def scripted_platform_def)

lemma backfill_legacyRecord: "backfill legacyRecord = makeSession"
  by (simp add: legacyRecord_def backfill_def stringify_def makeSession_def
        SessionBase.defs AgentSession.defs RawSession.defs)

lemma legacy_loop:
  "session_loop watching (scripted_platform 1000) (map backfill [legacyRecord]) False legacy_disk =
     (Inr (), map backfill [legacyRecord], False,
      legacy_disk
        \<lparr>trace := [Call ''session-123-test-agent'' (IsSessionAlive ''overstory-test-agent''),
                   Call ''session-123-test-agent''
                     (OnHealthCheck \<lparr>classification = Working, action = ActNone\<rparr>)]\<rparr>)"
  by (simp add: backfill_legacyRecord)
     (simp add: makeSession_def scripted_options_def watching_def scripted_platform_def
        legacy_disk_def tick_defs)

text \<open>
  Claim C10. \<open>loadSessions\<close> fills in the escalation fields in memory only, and the loop
  starts with the flag \<open>updated\<close> unset. When the health evaluator spares zombies (as
  the one of the specification does) and the loop returns with every record as
  \<open>loadSessions\<close> produced it, the flag is still unset: the tick returns without a
  write and the file holds the records it held, in the shape it held them.
\<close>

theorem backfill_alone_is_not_written:
  assumes "sessionsFile st = JsonArray raws"
    and "spares_zombies pf"
    and "session_loop opts pf (map backfill raws) False st =
           (Inr (), map backfill raws, updated, st')"
  shows "\<not> updated \<and> runDaemonTick opts pf st = (Inr (), st') \<and>
         sessionsFile st' = JsonArray raws \<and> writes (trace st') = writes (trace st)"
proof -
  from session_loop_same[OF assms(2,3)] have u: "\<not> updated" by simp
  from assms(1) have load: "loadSessions (sessionsFile st) = Inr (map backfill raws)"
    by (simp add: loadSessions_def)
  from session_loop_calls_only[OF assms(3)] assms(1)
  have "sessionsFile st' = JsonArray raws" "writes (trace st') = writes (trace st)"
    by (simp_all add: calls_only_def)
  with u runDaemonTick_loop[OF load assms(3)] show ?thesis by simp
qed

theorem backfill_alone_is_not_written_witness:
  "sessionsFile legacy_disk = JsonArray [legacyRecord] \<and>
   raw_escalationLevel legacyRecord = None \<and> raw_stalledSince legacyRecord = None \<and>
   map backfill [legacyRecord] = [makeSession] \<and>
   spares_zombies (scripted_platform 1000) \<and>
   fst (runDaemonTick watching (scripted_platform 1000) legacy_disk) = Inr () \<and>
   sessionsFile (snd (runDaemonTick watching (scripted_platform 1000) legacy_disk)) =
     JsonArray [legacyRecord] \<and>
   writes (trace (snd (runDaemonTick watching (scripted_platform 1000) legacy_disk))) = [] \<and>
   JsonArray (map stringify [makeSession]) \<noteq> JsonArray [legacyRecord]"
proof -
  have a: "sessionsFile legacy_disk = JsonArray [legacyRecord]"
    by (simp add: legacy_disk_def)
  have b: "spares_zombies (scripted_platform 1000)"
    by (rule follows_spec_spares_zombies[OF scripted_platform_follows_spec])
  from backfill_alone_is_not_written[OF a b legacy_loop]
  have c: "runDaemonTick watching (scripted_platform 1000) legacy_disk =
      (Inr (),
       legacy_disk
         \<lparr>trace := [Call ''session-123-test-agent'' (IsSessionAlive ''overstory-test-agent''),
                    Call ''session-123-test-agent''
                      (OnHealthCheck \<lparr>classification = Working, action = ActNone\<rparr>)]\<rparr>)"
    by blast
  have "raw_escalationLevel (stringify makeSession) \<noteq> raw_escalationLevel legacyRecord"
    by (simp add: legacyRecord_def stringify_def SessionBase.defs RawSession.defs)
  then have d: "JsonArray (map stringify [makeSession]) \<noteq> JsonArray [legacyRecord]"
    by auto
  from a b c d show ?thesis
    by (simp add: backfill_legacyRecord) (simp add: legacyRecord_def legacy_disk_def)
qed

section \<open>Running a tick twice\<close>

text \<open>The tick in terms of the outcome of its loop.\<close>

lemma runDaemonTick_outcome:
  assumes fixed: "\<forall>w. answers_of opts pf w = ans"
    and load: "loadSessions (sessionsFile st) = Inr ss"
    and out: "loop_outcome opts pf ans ss False = (r, ss', upd)"
    and tick: "runDaemonTick opts pf st = (r1, st1)"
  shows "r1 = r"
    and "sessionsFile st1 =
           (if r = Inr () \<and> upd then JsonArray (map stringify ss') else sessionsFile st)"
    and "writes (trace st1) =
           writes (trace st) @ (if r = Inr () \<and> upd then [SaveSessions ss'] else [])"
proof -
  obtain r0 ss0 u0 st0 where loop: "session_loop opts pf ss False st = (r0, ss0, u0, st0)"
    by (cases "session_loop opts pf ss False st") auto
  from loop_outcome_agrees[OF fixed, of ss False st] loop out
  have eq: "r0 = r" "ss0 = ss'" "u0 = upd" by simp_all
  note co = session_loop_calls_only[OF loop]
  from runDaemonTick_loop[OF load loop] tick eq
  have st1: "r1 = r" "st1 = (if r = Inr () \<and> upd then saveSessions ss' st0 else st0)"
    by simp_all
  from st1 show "r1 = r" by simp
  from st1 co show "sessionsFile st1 =
           (if r = Inr () \<and> upd then JsonArray (map stringify ss') else sessionsFile st)"
    by (simp add: calls_only_def)
  from st1 co show "writes (trace st1) =
           writes (trace st) @ (if r = Inr () \<and> upd then [SaveSessions ss'] else [])"
    by (simp add: calls_only_def)
qed

lemma follows_spec_answers:
  fixes opts :: "'w DaemonOptions"
  assumes "follows_spec pf now" and "\<forall>w. answers_of opts pf w = ans"
  shows "\<forall>cur c. transitionState pf cur c = transition_policy cur (action c)"
    and "\<forall>s a th. action (check_is ans s a th) = health_policy s a th (now_is ans)"
proof -
  from assms(1) show "\<forall>cur c. transitionState pf cur c = transition_policy cur (action c)"
    by (simp add: follows_spec_def)
  show "\<forall>s a th. action (check_is ans s a th) = health_policy s a th (now_is ans)"
  proof (intro allI)
    fix s a th
    from fixed_answers(1)[OF assms(2), of "undefined :: 'w"]
      fixed_answers(6)[OF assms(2), of s a th "undefined :: 'w"] assms(1)
    show "action (check_is ans s a th) = health_policy s a th (now_is ans)"
      unfolding follows_spec_def by metis
  qed
qed

lemma registry_frame [simp]:
  "registry (st\<lparr>world := w\<rparr>) = registry st" "registry (st\<lparr>trace := tr\<rparr>) = registry st"
  by (simp_all add: registry_def)

lemma registry_on_disk [simp]: "registry (on_disk ss) = ss"
  by (simp add: registry_def)

lemma fickle_first:
  "runDaemonTick fickle_triage (scripted_platform 90000) (on_disk [escalatedSession]) =
     (Inr (),
      (on_disk [escalatedSession])
        \<lparr>world := 1,
         trace := [Call ''session-456-other-agent'' (IsSessionAlive ''overstory-other-agent''),
                   Call ''session-456-other-agent''
                     (Triage \<lparr>req_agentName = ''other-agent'', req_root = ''/project'',
                              req_lastActivity = 0\<rparr>)]\<rparr>)"
proof -
  have "session_loop fickle_triage (scripted_platform 90000) [escalatedSession] False
      (on_disk [escalatedSession]) =
     (Inr (), [escalatedSession], False,
      (on_disk [escalatedSession])
        \<lparr>world := 1,
         trace := [Call ''session-456-other-agent'' (IsSessionAlive ''overstory-other-agent''),
                   Call ''session-456-other-agent''
                     (Triage \<lparr>req_agentName = ''other-agent'', req_root = ''/project'',
                              req_lastActivity = 0\<rparr>)]\<rparr>)"
    by (simp add: scenario_defs tick_defs)
  from runDaemonTick_loop[OF loadSessions_on_disk this] show ?thesis by simp
qed

lemma fickle_second:
  "runDaemonTick fickle_triage (scripted_platform 90000)
     (snd (runDaemonTick fickle_triage (scripted_platform 90000) (on_disk [escalatedSession]))) =
     (Inr (),
      saveSessions [escalatedSession\<lparr>state := Zombie, escalationLevel := 0, stalledSince := None\<rparr>]
        ((on_disk [escalatedSession])
           \<lparr>world := 2,
            trace := [Call ''session-456-other-agent'' (IsSessionAlive ''overstory-other-agent''),
                      Call ''session-456-other-agent''
                        (Triage \<lparr>req_agentName = ''other-agent'', req_root = ''/project'',
                                 req_lastActivity = 0\<rparr>),
                      Call ''session-456-other-agent'' (IsSessionAlive ''overstory-other-agent''),
                      Call ''session-456-other-agent''
                        (Triage \<lparr>req_agentName = ''other-agent'', req_root = ''/project'',
                                 req_lastActivity = 0\<rparr>),
                      Call ''session-456-other-agent'' (KillSession ''overstory-other-agent'')]\<rparr>))"
proof -
  let ?st1 = "(on_disk [escalatedSession])
        \<lparr>world := 1,
         trace := [Call ''session-456-other-agent'' (IsSessionAlive ''overstory-other-agent''),
                   Call ''session-456-other-agent''
                     (Triage \<lparr>req_agentName = ''other-agent'', req_root = ''/project'',
                              req_lastActivity = 0\<rparr>)]\<rparr>"
  have load: "loadSessions (sessionsFile ?st1) = Inr [escalatedSession]"
    by simp
  have "session_loop fickle_triage (scripted_platform 90000) [escalatedSession] False ?st1 =
     (Inr (), [escalatedSession\<lparr>state := Zombie, escalationLevel := 0, stalledSince := None\<rparr>],
      True,
      (on_disk [escalatedSession])
           \<lparr>world := 2,
            trace := [Call ''session-456-other-agent'' (IsSessionAlive ''overstory-other-agent''),
                      Call ''session-456-other-agent''
                        (Triage \<lparr>req_agentName = ''other-agent'', req_root = ''/project'',
                                 req_lastActivity = 0\<rparr>),
                      Call ''session-456-other-agent'' (IsSessionAlive ''overstory-other-agent''),
                      Call ''session-456-other-agent''
                        (Triage \<lparr>req_agentName = ''other-agent'', req_root = ''/project'',
                                 req_lastActivity = 0\<rparr>),
                      Call ''session-456-other-agent'' (KillSession ''overstory-other-agent'')]\<rparr>)"
    by (simp add: scenario_defs tick_defs)
  from runDaemonTick_loop[OF load this] show ?thesis
    unfolding fickle_first by simp
qed

text \<open>
  Claim C6, as stated, fails. The clock reads the same and the probe answers alive in
  both ticks, but the triage answers \<open>extend\<close> to the first and \<open>terminate\<close> to the
  second: the first tick changes nothing and writes nothing, the second one marks the
  session a zombie and writes the registry.
\<close>

theorem second_tick_counterexample:
  "fst (clock (scripted_platform 90000) 0) = 90000 \<and>
   fst (clock (scripted_platform 90000) 1) = 90000 \<and>
   fst (tmux_isSessionAlive fickle_triage ''overstory-other-agent'' 0) = Inr True \<and>
   fst (tmux_isSessionAlive fickle_triage ''overstory-other-agent'' 1) = Inr True \<and>
   registry (on_disk [escalatedSession]) = [escalatedSession] \<and>
   registry (snd (runDaemonTick fickle_triage (scripted_platform 90000)
     (on_disk [escalatedSession]))) = [escalatedSession] \<and>
   registry (snd (runDaemonTick fickle_triage (scripted_platform 90000)
     (snd (runDaemonTick fickle_triage (scripted_platform 90000) (on_disk [escalatedSession]))))) =
     [escalatedSession\<lparr>state := Zombie, escalationLevel := 0, stalledSince := None\<rparr>] \<and>
   writes (trace (snd (runDaemonTick fickle_triage (scripted_platform 90000)
     (snd (runDaemonTick fickle_triage (scripted_platform 90000) (on_disk [escalatedSession])))))) =
     [SaveSessions
        [escalatedSession\<lparr>state := Zombie, escalationLevel := 0, stalledSince := None\<rparr>]]"
proof -
  have "registry (on_disk [escalatedSession]) = [escalatedSession]"
    by simp
  moreover have "registry (snd (runDaemonTick fickle_triage (scripted_platform 90000)
     (on_disk [escalatedSession]))) = [escalatedSession]"
    unfolding fickle_first by simp
  moreover have "fst (clock (scripted_platform 90000) 0) = 90000"
    and "fst (clock (scripted_platform 90000) 1) = 90000"
    and "fst (tmux_isSessionAlive fickle_triage ''overstory-other-agent'' 0) = Inr True"
    and "fst (tmux_isSessionAlive fickle_triage ''overstory-other-agent'' 1) = Inr True"
    by (simp_all add: scripted_platform_def fickle_triage_def scripted_options_def)
  ultimately show ?thesis
    unfolding fickle_second by simp
qed

lemma triage_says_steady: "steady (triage_says verdict) (scripted_platform now)"
  by (simp add: steady_def answers_of_def triage_says_def scripted_options_def
        scripted_platform_def)

lemma settled_first:
  "runDaemonTick (triage_says Extend) (scripted_platform 90000)
     (on_disk [makeSession, stalledSession]) =
     (Inr (),
      saveSessions [makeSession\<lparr>stalledSince := Some 90000\<rparr>, escalatedSession]
        ((on_disk [makeSession, stalledSession])
           \<lparr>world := 1,
            trace := [Call ''session-123-test-agent'' (IsSessionAlive ''overstory-test-agent''),
                      Call ''session-123-test-agent''
                        (OnHealthCheck \<lparr>classification = Working, action = Escalate\<rparr>),
                      Call ''session-456-other-agent'' (IsSessionAlive ''overstory-other-agent''),
                      Call ''session-456-other-agent''
                        (OnHealthCheck \<lparr>classification = Working, action = Escalate\<rparr>),
                      Call ''session-456-other-agent''
                        (Triage \<lparr>req_agentName = ''other-agent'', req_root = ''/project'',
                                 req_lastActivity = 0\<rparr>)]\<rparr>))"
proof -
  have "session_loop (triage_says Extend) (scripted_platform 90000) [makeSession, stalledSession]
      False (on_disk [makeSession, stalledSession]) =
     (Inr (), [makeSession\<lparr>stalledSince := Some 90000\<rparr>, escalatedSession], True,
      (on_disk [makeSession, stalledSession])
           \<lparr>world := 1,
            trace := [Call ''session-123-test-agent'' (IsSessionAlive ''overstory-test-agent''),
                      Call ''session-123-test-agent''
                        (OnHealthCheck \<lparr>classification = Working, action = Escalate\<rparr>),
                      Call ''session-456-other-agent'' (IsSessionAlive ''overstory-other-agent''),
                      Call ''session-456-other-agent''
                        (OnHealthCheck \<lparr>classification = Working, action = Escalate\<rparr>),
                      Call ''session-456-other-agent''
                        (Triage \<lparr>req_agentName = ''other-agent'', req_root = ''/project'',
                                 req_lastActivity = 0\<rparr>)]\<rparr>)"
    by (simp add: scenario_defs tick_defs)
  from runDaemonTick_loop[OF loadSessions_on_disk this] show ?thesis by simp
qed

text \<open>
  Claim C6, amended. Let the answers be steady (the clock does not advance, the probe
  reports the same liveness, and the triage, the observer and the health evaluator answer
  a request the same way in both ticks), with the health evaluator and the transition
  function of the specification. Then a second tick, run in the state the first one
  left, leaves the registry file as the first one left it and writes nothing, whether
  the first one returned or ended with an exception. A tick writes the file at most once,
  and only when the registry it wrote differs from the one it read.
\<close>

theorem second_tick_writes_nothing:
  assumes "steady opts pf" and "follows_spec pf now"
    and "runDaemonTick opts pf st = (r1, st1)"
    and "runDaemonTick opts pf st1 = (r2, st2)"
  shows "sessionsFile st2 = sessionsFile st1 \<and>
         writes (trace st2) = writes (trace st1) \<and>
         length (writes (trace st1)) \<le> Suc (length (writes (trace st))) \<and>
         (writes (trace st1) \<noteq> writes (trace st) \<longrightarrow> registry st1 \<noteq> registry st)"
proof (cases "loadSessions (sessionsFile st)")
  case (Inl e)
  with assms(3) have "st1 = st" by (simp add: runDaemonTick_def)
  with Inl assms(4) have "st2 = st" by (simp add: runDaemonTick_def)
  with \<open>st1 = st\<close> show ?thesis by simp
next
  case (Inr ss)
  define ans where "ans = answers_of opts pf (world st)"
  from assms(1) have fixed: "\<forall>w. answers_of opts pf w = ans"
    unfolding steady_def ans_def by blast
  note pol = follows_spec_answers[OF assms(2) fixed]
  obtain r ss' upd where out: "loop_outcome opts pf ans ss False = (r, ss', upd)"
    by (cases "loop_outcome opts pf ans ss False") auto
  note t1 = runDaemonTick_outcome[OF fixed Inr out assms(3)]
  have mutated: "upd \<Longrightarrow> ss' \<noteq> ss"
  proof -
    assume upd
    obtain r0 ss0 u0 st0 where loop: "session_loop opts pf ss False st = (r0, ss0, u0, st0)"
      by (cases "session_loop opts pf ss False st") auto
    from loop_outcome_agrees[OF fixed, of ss False st] loop out
    have "ss0 = ss'" "u0 = upd" by simp_all
    with session_loop_same[OF follows_spec_spares_zombies[OF assms(2)] loop] \<open>upd\<close>
    show "ss' \<noteq> ss" by auto
  qed
  show ?thesis
  proof (cases "r = Inr () \<and> upd")
    case True
    with t1 have file1: "sessionsFile st1 = JsonArray (map stringify ss')"
      and w1: "writes (trace st1) = writes (trace st) @ [SaveSessions ss']"
      by simp_all
    from file1 have load1: "loadSessions (sessionsFile st1) = Inr ss'" by simp
    obtain r' ss'' upd' where out2: "loop_outcome opts pf ans ss' False = (r', ss'', upd')"
      by (cases "loop_outcome opts pf ans ss' False") auto
    note t2 = runDaemonTick_outcome[OF fixed load1 out2 assms(4)]
    have quiet: "\<not> (r' = Inr () \<and> upd')"
    proof
      assume a: "r' = Inr () \<and> upd'"
      with out2 have "fst (loop_outcome opts pf ans ss' False) = Inr ()" by simp
      from loop_outcome_settled[OF pol out[unfolded conjunct1[OF True]] this] out2 a
      show False by simp
    qed
    from Inr load1 mutated True have "registry st1 \<noteq> registry st"
      by (simp add: registry_def)
    moreover from t2(2,3) quiet have "sessionsFile st2 = sessionsFile st1"
      and "writes (trace st2) = writes (trace st1)"
      by auto
    ultimately show ?thesis using w1 by simp
  next
    case False
    with t1 have file1: "sessionsFile st1 = sessionsFile st"
      and w1: "writes (trace st1) = writes (trace st)"
      by simp_all
    from file1 Inr have load1: "loadSessions (sessionsFile st1) = Inr ss" by simp
    note t2 = runDaemonTick_outcome[OF fixed load1 out assms(4)]
    from t2(2,3) False have "sessionsFile st2 = sessionsFile st1"
      and "writes (trace st2) = writes (trace st1)"
      by auto
    with w1 show ?thesis by simp
  qed
qed


theorem second_tick_writes_nothing_witness:
  "steady (triage_says Extend) (scripted_platform 90000) \<and>
   follows_spec (scripted_platform 90000) 90000 \<and>
   writes (trace (snd (runDaemonTick (triage_says Extend) (scripted_platform 90000)
     (on_disk [makeSession, stalledSession])))) =
     [SaveSessions [makeSession\<lparr>stalledSince := Some 90000\<rparr>, escalatedSession]] \<and>
   sessionsFile (snd (runDaemonTick (triage_says Extend) (scripted_platform 90000)
     (snd (runDaemonTick (triage_says Extend) (scripted_platform 90000)
       (on_disk [makeSession, stalledSession]))))) =
     JsonArray (map stringify [makeSession\<lparr>stalledSince := Some 90000\<rparr>, escalatedSession]) \<and>
   writes (trace (snd (runDaemonTick (triage_says Extend) (scripted_platform 90000)
     (snd (runDaemonTick (triage_says Extend) (scripted_platform 90000)
       (on_disk [makeSession, stalledSession])))))) =
     [SaveSessions [makeSession\<lparr>stalledSince := Some 90000\<rparr>, escalatedSession]]"
proof -
  let ?run1 = "runDaemonTick (triage_says Extend) (scripted_platform 90000)
     (on_disk [makeSession, stalledSession])"
  let ?run2 = "runDaemonTick (triage_says Extend) (scripted_platform 90000) (snd ?run1)"
  have a: "steady (triage_says Extend) (scripted_platform 90000)"
    by (rule triage_says_steady)
  have b: "follows_spec (scripted_platform 90000) 90000"
    by (rule scripted_platform_follows_spec)
  have c: "writes (trace (snd ?run1)) =
      [SaveSessions [makeSession\<lparr>stalledSince := Some 90000\<rparr>, escalatedSession]]"
    and d: "sessionsFile (snd ?run1) =
      JsonArray (map stringify [makeSession\<lparr>stalledSince := Some 90000\<rparr>, escalatedSession])"
    by (simp_all add: settled_first)
  from second_tick_writes_nothing[OF a b prod.collapse[symmetric] prod.collapse[symmetric],
      of "on_disk [makeSession, stalledSession]"]
  have "sessionsFile (snd ?run2) = sessionsFile (snd ?run1)"
    and "writes (trace (snd ?run2)) = writes (trace (snd ?run1))"
    by blast+
  with a b c d show ?thesis
    by simp
qed

end
